theory Spec2Isabelle
  imports Main "HOL-Library.Sublist"
begin

section \<open>Strings\<close>

text \<open>
  A transcript is a \<^typ>\<open>string\<close>: a list of 8-bit characters, read as the code units
  U+0000 .. U+00FF of a JavaScript string. The three string operations that
  \<^verbatim>\<open>extractInformation\<close> uses are modelled on them:
  \<^verbatim>\<open>String.prototype.toLowerCase\<close>, \<^verbatim>\<open>String.prototype.includes\<close> and
  \<^verbatim>\<open>String.prototype.match\<close> with the three regular expressions of \<^verbatim>\<open>namePatterns\<close>.
\<close>

definition is_upper :: "char \<Rightarrow> bool" where
  "is_upper c =
     (let n = (of_char c :: nat)
      in (65 \<le> n \<and> n \<le> 90) \<or> (192 \<le> n \<and> n \<le> 222 \<and> n \<noteq> 215))"

definition lower_char :: "char \<Rightarrow> char" where
  "lower_char c = (if is_upper c then char_of (of_char c + (32 :: nat)) else c)"

text \<open>\<^verbatim>\<open>conversation.toLowerCase()\<close>: character by character; A-Z and the upper-case
  letters of the Latin-1 block move down by 32, every other character stays.\<close>

definition toLowerCase :: "string \<Rightarrow> string" where
  "toLowerCase s = map lower_char s"

text \<open>\<^verbatim>\<open>text.includes(w)\<close>: \<open>w\<close> starts at some position of \<open>text\<close>.\<close>

fun includes_str :: "string \<Rightarrow> string \<Rightarrow> bool" where
  "includes_str [] w = (w = [])"
| "includes_str (c # cs) w = (prefix w (c # cs) \<or> includes_str cs w)"

subsection \<open>The name patterns\<close>

text \<open>
  The three patterns are \<^verbatim>\<open>/my name is (\w+)/i\<close>, \<^verbatim>\<open>/i'm (\w+)/i\<close> and
  \<^verbatim>\<open>/this is (\w+)/i\<close>: a literal cue, matched ignoring case, then one capture group of
  one or more word characters. A pattern is represented by its cue.

  Without the \<^verbatim>\<open>u\<close> flag, \<^verbatim>\<open>/i\<close> compares characters after \<open>Canonicalize\<close>, the
  upper-casing of a single code unit, and \<^verbatim>\<open>\w\<close> is \<^verbatim>\<open>[A-Za-z0-9_]\<close>. The three
  characters of the block whose upper case is not one code unit of the block (U+00B5,
  U+00DF, U+00FF) are left as they are: each stays different from every other character,
  as its canonical form is in JavaScript.
\<close>

definition canonicalize :: "char \<Rightarrow> char" where
  "canonicalize c =
     (let n = (of_char c :: nat)
      in if (97 \<le> n \<and> n \<le> 122) \<or> (224 \<le> n \<and> n \<le> 254 \<and> n \<noteq> 247)
         then char_of (n - 32) else c)"

definition is_word_char :: "char \<Rightarrow> bool" where
  "is_word_char c =
     (let n = (of_char c :: nat)
      in (48 \<le> n \<and> n \<le> 57) \<or> (65 \<le> n \<and> n \<le> 90) \<or> n = 95 \<or> (97 \<le> n \<and> n \<le> 122))"

text \<open>The cue matched at the start of the input; the result is the input after the cue.\<close>

fun match_cue :: "string \<Rightarrow> string \<Rightarrow> string option" where
  "match_cue [] s = Some s"
| "match_cue (p # ps) [] = None"
| "match_cue (p # ps) (c # cs) =
     (if canonicalize p = canonicalize c then match_cue ps cs else None)"

text \<open>The whole pattern matched at the start of the input: the cue, then the longest
  run of word characters (\<^verbatim>\<open>\w+\<close> is greedy and nothing follows it), which must not be
  empty. The result is capture group 1.\<close>

definition match_here :: "string \<Rightarrow> string \<Rightarrow> string option" where
  "match_here cue s =
     (case match_cue cue s of
        None \<Rightarrow> None
      | Some rest \<Rightarrow>
          (let w = takeWhile is_word_char rest in if w = [] then None else Some w))"

text \<open>\<^verbatim>\<open>conversation.match(pattern)\<close> for a pattern without the \<^verbatim>\<open>g\<close> flag: the match at
  the leftmost position where the pattern matches; \<open>None\<close> is JavaScript's \<^verbatim>\<open>null\<close>,
  \<open>Some w\<close> a match array with \<^verbatim>\<open>match[1] = w\<close>.\<close>

fun regex_match :: "string \<Rightarrow> string \<Rightarrow> string option" where
  "regex_match cue [] = match_here cue []"
| "regex_match cue (c # cs) =
     (case match_here cue (c # cs) of
        Some w \<Rightarrow> Some w
      | None \<Rightarrow> regex_match cue cs)"

section \<open>The slot extractor\<close>

record info =
  name :: "string option"
  favoriteColor :: "string option"
  steakPreference :: "string option"

definition namePatterns :: "string list" where
  "namePatterns = [''my name is '', ''i'm '', ''this is '']"

definition colors :: "string list" where
  "colors = [''red'', ''blue'', ''green'', ''yellow'', ''purple'', ''orange'', ''pink'',
             ''black'', ''white'', ''brown'']"

definition steakPrefs :: "string list" where
  "steakPrefs = [''rare'', ''medium rare'', ''medium well'', ''medium'', ''well done'']"

text \<open>The loop over \<^verbatim>\<open>namePatterns\<close>: the first pattern that matches sets the name and
  breaks.\<close>

fun first_match :: "string list \<Rightarrow> string \<Rightarrow> string option" where
  "first_match [] conversation = None"
| "first_match (pattern # patterns) conversation =
     (case regex_match pattern conversation of
        Some w \<Rightarrow> Some w
      | None \<Rightarrow> first_match patterns conversation)"

text \<open>The loops over \<^verbatim>\<open>colors\<close> and \<^verbatim>\<open>steakPrefs\<close>: the first word of the list that the
  text includes is taken, and the loop breaks.\<close>

fun first_included :: "string list \<Rightarrow> string \<Rightarrow> string option" where
  "first_included [] text = None"
| "first_included (w # ws) text =
     (if includes_str text w then Some w else first_included ws text)"

definition extractInformation :: "string \<Rightarrow> info" where
  "extractInformation conversation =
     (let text = toLowerCase conversation
      in \<lparr> name = first_match namePatterns conversation,
           favoriteColor = first_included colors text,
           steakPreference = first_included steakPrefs text \<rparr>)"

section \<open>Storage\<close>

text \<open>
  The two tables of \<^verbatim>\<open>customer_data.db\<close>, each a list of rows in rowid order with the
  counter of its \<^verbatim>\<open>AUTOINCREMENT\<close> key. The \<^verbatim>\<open>created_at\<close> columns are left out:
  they default to the clock and none of the functions below reads them. The columns
  \<^verbatim>\<open>conversation_state\<close> and \<^verbatim>\<open>collected_data\<close> hold JSON text that the program
  only writes with \<^verbatim>\<open>JSON.stringify\<close> and reads with \<^verbatim>\<open>JSON.parse\<close>; the model
  keeps the values themselves. Only \<^verbatim>\<open>customers.phone_number\<close> is \<^verbatim>\<open>UNIQUE\<close>;
  \<^verbatim>\<open>call_sessions.call_sid\<close> is not.
\<close>

datatype role = System | User | Assistant

record message =
  role :: role
  content :: string

record session_row =
  s_id :: nat
  call_sid :: string
  phone_number :: string
  conversation_state :: "message list"
  collected_data :: info

record customer_row =
  c_id :: nat
  c_phone_number :: string
  c_name :: "string option"
  c_favorite_color :: "string option"
  c_steak_preference :: "string option"

record db =
  call_sessions :: "session_row list"
  call_sessions_seq :: nat
  customers :: "customer_row list"
  customers_seq :: nat

definition empty_db :: db where
  "empty_db = \<lparr> call_sessions = [], call_sessions_seq = 0, customers = [], customers_seq = 0 \<rparr>"

section \<open>Collaborators\<close>

text \<open>
  What the handlers cannot decide is an input of the model: whether a statement sent
  to SQLite fails, what the chat completion returns or whether it throws, and whether
  Twilio accepts a message. \<open>Inl\<close> is a thrown error or a rejected promise.
\<close>

datatype error = SqliteError | OpenAIError | TypeError

datatype statement = SelectSession | InsertSession | UpdateSession | ReplaceCustomer

text \<open>The text message of \<^verbatim>\<open>sendSteakInstructions\<close>: the recipient, the sender and the
  values that the fixed template of the body interpolates.\<close>

record sms =
  sms_to :: string
  sms_from :: string
  body_name :: "string option"
  body_favoriteColor :: "string option"
  body_steakPreference :: string
  body_temp :: string
  body_time :: string

record env =
  sqlite_err :: "statement \<Rightarrow> bool"
  openai_create :: "message list \<Rightarrow> error + string"
  twilio_create :: "sms \<Rightarrow> bool"
  twilio_phoneNumber :: string

section \<open>The call assistant\<close>

definition systemPrompt :: string where
  "systemPrompt =
     ''You are a friendly phone assistant collecting customer information. '' @ [CHR 0x0A] @
     ''        Your job is to:'' @ [CHR 0x0A] @
     ''        1. Greet the caller warmly'' @ [CHR 0x0A] @
     ''        2. Collect their name'' @ [CHR 0x0A] @
     ''        3. Ask for their favorite color'' @ [CHR 0x0A] @
     ''        4. Ask how they like their steak cooked (rare, medium rare, medium, medium well, well done)'' @ [CHR 0x0A] @
     ''        '' @ [CHR 0x0A] @
     ''        Keep responses brief and conversational. When you have all three pieces of information, '' @ [CHR 0x0A] @
     ''        thank them and let them know they'll receive a text with cooking instructions.'' @ [CHR 0x0A] @
     ''        '' @ [CHR 0x0A] @
     ''        Always respond in a natural, friendly tone as if speaking on the phone.''"

text \<open>\<^verbatim>\<open>generateResponse\<close>: the system prompt, the history it is given and the user
  input once more are sent to the chat completion; its answer is returned.\<close>

definition generateResponse :: "env \<Rightarrow> message list \<Rightarrow> string \<Rightarrow> error + string" where
  "generateResponse env conversationHistory userInput =
     openai_create env
       ([\<lparr> role = System, content = systemPrompt \<rparr>] @ conversationHistory @
        [\<lparr> role = User, content = userInput \<rparr>])"

section \<open>Database helper functions\<close>

text \<open>\<^verbatim>\<open>getSession\<close>: \<^verbatim>\<open>db.get\<close> passes the first row of the result to its callback, or
  \<^verbatim>\<open>undefined\<close> (\<open>None\<close>) when the result is empty, and the promise resolves with it.\<close>

definition getSession :: "env \<Rightarrow> db \<Rightarrow> string \<Rightarrow> error + session_row option" where
  "getSession env db callSid =
     (if sqlite_err env SelectSession then Inl SqliteError
      else Inr (find (\<lambda>r. call_sid r = callSid) (call_sessions db)))"

definition updateSession ::
  "env \<Rightarrow> db \<Rightarrow> string \<Rightarrow> message list \<Rightarrow> info \<Rightarrow> error + db" where
  "updateSession env db callSid conversationHistory collectedData =
     (if sqlite_err env UpdateSession then Inl SqliteError
      else Inr (db \<lparr> call_sessions :=
                  map (\<lambda>r. if call_sid r = callSid
                           then r \<lparr> conversation_state := conversationHistory,
                                   collected_data := collectedData \<rparr>
                           else r)
                    (call_sessions db) \<rparr>))"

text \<open>\<^verbatim>\<open>saveCustomerData\<close>: \<^verbatim>\<open>INSERT OR REPLACE\<close> deletes the row that holds the phone
  number, if there is one, and inserts the new row under a fresh key.\<close>

definition saveCustomerData :: "env \<Rightarrow> db \<Rightarrow> string \<Rightarrow> info \<Rightarrow> error + db" where
  "saveCustomerData env db phoneNumber i =
     (if sqlite_err env ReplaceCustomer then Inl SqliteError
      else Inr (db \<lparr> customers :=
                       filter (\<lambda>c. c_phone_number c \<noteq> phoneNumber) (customers db) @
                       [\<lparr> c_id = customers_seq db + 1, c_phone_number = phoneNumber,
                          c_name = name i, c_favorite_color = favoriteColor i,
                          c_steak_preference = steakPreference i \<rparr>],
                     customers_seq := customers_seq db + 1 \<rparr>))"

text \<open>
  \<^verbatim>\<open>getOrCreateSession\<close> is two statements, the second sent from the callback of the
  first. \<open>goc_step\<close> runs the callback that is pending: after \<^verbatim>\<open>SELECT\<close> the promise
  resolves with the row found or the \<^verbatim>\<open>INSERT\<close> is sent; after \<^verbatim>\<open>INSERT\<close> the promise
  resolves with the new row.
\<close>

datatype goc =
  Select string string
| Insert string string
| Resolved session_row
| Rejected error

fun goc_step :: "env \<Rightarrow> db \<Rightarrow> goc \<Rightarrow> db \<times> goc" where
  "goc_step env db (Select callSid phoneNumber) =
     (if sqlite_err env SelectSession then (db, Rejected SqliteError)
      else case find (\<lambda>r. call_sid r = callSid) (call_sessions db) of
             Some row \<Rightarrow> (db, Resolved row)
           | None \<Rightarrow> (db, Insert callSid phoneNumber))"
| "goc_step env db (Insert callSid phoneNumber) =
     (if sqlite_err env InsertSession then (db, Rejected SqliteError)
      else let row = \<lparr> s_id = call_sessions_seq db + 1, call_sid = callSid,
                        phone_number = phoneNumber, conversation_state = [],
                        collected_data = \<lparr> name = None, favoriteColor = None,
                                            steakPreference = None \<rparr> \<rparr>
           in (db \<lparr> call_sessions := call_sessions db @ [row],
                    call_sessions_seq := call_sessions_seq db + 1 \<rparr>,
               Resolved row))"
| "goc_step env db (Resolved row) = (db, Resolved row)"
| "goc_step env db (Rejected e) = (db, Rejected e)"

text \<open>One invocation running alone: nothing comes between its two statements.\<close>

definition getOrCreateSession :: "env \<Rightarrow> db \<Rightarrow> string \<Rightarrow> string \<Rightarrow> db \<times> goc" where
  "getOrCreateSession env db callSid phoneNumber =
     (let (db1, p1) = goc_step env db (Select callSid phoneNumber)
      in goc_step env db1 p1)"

text \<open>Two invocations in flight: each entry of the schedule says whose pending
  callback runs next (\<open>False\<close> the first, \<open>True\<close> the second).\<close>

fun goc_run :: "env \<Rightarrow> db \<Rightarrow> goc \<Rightarrow> goc \<Rightarrow> bool list \<Rightarrow> db \<times> goc \<times> goc" where
  "goc_run env db p q [] = (db, p, q)"
| "goc_run env db p q (False # sched) =
     (let (db', p') = goc_step env db p in goc_run env db' p' q sched)"
| "goc_run env db p q (True # sched) =
     (let (db', q') = goc_step env db q in goc_run env db' p q' sched)"

text \<open>The row that the \<^verbatim>\<open>INSERT\<close> of \<^verbatim>\<open>getOrCreateSession\<close> adds to a database, and the
  database with a row added.\<close>

definition new_session :: "db \<Rightarrow> string \<Rightarrow> string \<Rightarrow> session_row" where
  "new_session db callSid phoneNumber =
     \<lparr> s_id = call_sessions_seq db + 1, call_sid = callSid, phone_number = phoneNumber,
       conversation_state = [],
       collected_data = \<lparr> name = None, favoriteColor = None, steakPreference = None \<rparr> \<rparr>"

definition with_session :: "db \<Rightarrow> session_row \<Rightarrow> db" where
  "with_session db row =
     db \<lparr> call_sessions := call_sessions db @ [row],
          call_sessions_seq := call_sessions_seq db + 1 \<rparr>"

section \<open>The follow-up text\<close>

text \<open>\<^verbatim>\<open>steakTemperatures\<close>, with the characters of the source file as they stand.\<close>

definition steakTemperatures :: "(string \<times> string \<times> string) list" where
  "steakTemperatures =
     [(''rare'', ''120-125'' @ [CHR 0xC2, CHR 0xB0] @ ''F'', ''2-3 minutes per side''),
      (''medium rare'', ''130-135'' @ [CHR 0xC2, CHR 0xB0] @ ''F'', ''3-4 minutes per side''),
      (''medium'', ''135-145'' @ [CHR 0xC2, CHR 0xB0] @ ''F'', ''4-5 minutes per side''),
      (''medium well'', ''145-155'' @ [CHR 0xC2, CHR 0xB0] @ ''F'', ''5-6 minutes per side''),
      (''well done'', ''155'' @ [CHR 0xC2, CHR 0xB0] @ ''F+'', ''6+ minutes per side'')]"

text \<open>
  \<^verbatim>\<open>sendSteakInstructions\<close>. Reading \<^verbatim>\<open>steakPreference.toLowerCase()\<close> of a record
  without the field throws before the \<^verbatim>\<open>try\<close>. The table is a plain object: one of
  its five keys finds its entry; a key that every object inherits finds the inherited
  member, whose \<^verbatim>\<open>temp\<close> and \<^verbatim>\<open>time\<close> read \<^verbatim>\<open>undefined\<close> (of the inherited names only
  \<^verbatim>\<open>constructor\<close> and \<^verbatim>\<open>__proto__\<close> have no upper-case letter, so only they can be a
  lower-cased key); any other key takes the entry of \<^verbatim>\<open>'medium'\<close>. Inside the \<^verbatim>\<open>try\<close>, a
  failure of
  \<^verbatim>\<open>twilioClient.messages.create\<close> is caught and written to the console. The result is
  the list of messages handed to Twilio and the lines written to the console.
\<close>

definition sendSteakInstructions ::
  "env \<Rightarrow> string \<Rightarrow> info \<Rightarrow> error + (sms list \<times> string list)" where
  "sendSteakInstructions env phoneNumber customerInfo =
     (case steakPreference customerInfo of
        None \<Rightarrow> Inl TypeError
      | Some pref \<Rightarrow>
          (let key = toLowerCase pref;
               tempInfo =
                 (case map_of steakTemperatures key of
                    Some t \<Rightarrow> t
                  | None \<Rightarrow>
                      if key = ''constructor'' \<or> key = ''__proto__''
                      then (''undefined'', ''undefined'')
                      else (''135-145'' @ [CHR 0xC2, CHR 0xB0] @ ''F'', ''4-5 minutes per side''));
               msg = \<lparr> sms_to = phoneNumber, sms_from = twilio_phoneNumber env,
                       body_name = name customerInfo,
                       body_favoriteColor = favoriteColor customerInfo,
                       body_steakPreference = pref,
                       body_temp = fst tempInfo, body_time = snd tempInfo \<rparr>
           in if twilio_create env msg
              then Inr ([msg], [''Sent steak instructions to '' @ phoneNumber])
              else Inr ([msg], [''Error sending SMS:''])))"

section \<open>The speech handler\<close>

datatype verb = Say string | Gather | Hangup

text \<open>What one request to \<^verbatim>\<open>/gather\<close> leaves behind: the TwiML sent back, the database,
  the messages handed to Twilio and the lines written to the console.\<close>

record response =
  twiml :: "verb list"
  db_after :: db
  sms_requests :: "sms list"
  console :: "string list"

text \<open>A value in the condition of an \<^verbatim>\<open>if\<close>: a missing field and the empty string are
  falsy.\<close>

fun truthy :: "string option \<Rightarrow> bool" where
  "truthy None = False"
| "truthy (Some s) = (s \<noteq> [])"

text \<open>\<^verbatim>\<open>xs.slice(-n)\<close> and \<^verbatim>\<open>xs.join(' ')\<close>.\<close>

definition slice_last :: "nat \<Rightarrow> 'a list \<Rightarrow> 'a list" where
  "slice_last n xs = drop (length xs - n) xs"

fun join_sp :: "string list \<Rightarrow> string" where
  "join_sp [] = []"
| "join_sp [x] = x"
| "join_sp (x # y # ys) = x @ '' '' @ join_sp (y # ys)"

text \<open>A field interpolated into a template literal: a missing one reads
  \<^verbatim>\<open>undefined\<close>.\<close>

fun interpolate :: "string option \<Rightarrow> string" where
  "interpolate None = ''undefined''"
| "interpolate (Some s) = s"

definition closing_prompt :: "string option \<Rightarrow> string" where
  "closing_prompt n =
     ''Perfect! Thanks '' @ interpolate n @
     ''. I've got your information and you'll receive a text with your personalized steak cooking instructions shortly. Have a great day!''"

definition retry_prompt :: string where
  "retry_prompt = ''I'm sorry, I'm having trouble processing that. Let me try again.''"

text \<open>
  The body of the \<^verbatim>\<open>try\<close> of the handler. \<open>Inl (e, db')\<close>: \<open>e\<close> was thrown, and \<open>db'\<close>
  is the database at that moment. A session that is \<^verbatim>\<open>undefined\<close> throws when its
  \<^verbatim>\<open>conversation_state\<close> is read.
\<close>

definition gather_try ::
  "env \<Rightarrow> db \<Rightarrow> string \<Rightarrow> string \<Rightarrow> string \<Rightarrow> (error \<times> db) + response" where
  "gather_try env db speechResult callSid from =
     (case getSession env db callSid of
        Inl e \<Rightarrow> Inl (e, db)
      | Inr None \<Rightarrow> Inl (TypeError, db)
      | Inr (Some session) \<Rightarrow>
          (let conversationHistory =
                 conversation_state session @ [\<lparr> role = User, content = speechResult \<rparr>]
           in case generateResponse env (slice_last 6 conversationHistory) speechResult of
                Inl e \<Rightarrow> Inl (e, db)
              | Inr aiResponse \<Rightarrow>
                  (let conversationHistory' =
                         conversationHistory @ [\<lparr> role = Assistant, content = aiResponse \<rparr>];
                       fullConversation = join_sp (map content conversationHistory');
                       extractedInfo = extractInformation fullConversation
                   in case updateSession env db callSid conversationHistory' extractedInfo of
                        Inl e \<Rightarrow> Inl (e, db)
                      | Inr db1 \<Rightarrow>
                          if truthy (name extractedInfo) \<and> truthy (favoriteColor extractedInfo) \<and>
                             truthy (steakPreference extractedInfo)
                          then (case saveCustomerData env db1 from extractedInfo of
                                  Inl e \<Rightarrow> Inl (e, db1)
                                | Inr db2 \<Rightarrow>
                                    (case sendSteakInstructions env from extractedInfo of
                                       Inl e \<Rightarrow> Inl (e, db2)
                                     | Inr (msgs, lines) \<Rightarrow>
                                         Inr \<lparr> twiml = [Say (closing_prompt (name extractedInfo)),
                                                        Hangup],
                                               db_after = db2, sms_requests = msgs,
                                               console = lines \<rparr>))
                          else Inr \<lparr> twiml = [Say aiResponse, Gather], db_after = db1,
                                     sms_requests = [], console = [] \<rparr>)))"

text \<open>The handler of \<^verbatim>\<open>POST /gather\<close>: the \<^verbatim>\<open>catch\<close> answers with the retry prompt and
  gathers speech again.\<close>

definition gather :: "env \<Rightarrow> db \<Rightarrow> string \<Rightarrow> string \<Rightarrow> string \<Rightarrow> response" where
  "gather env db speechResult callSid from =
     (case gather_try env db speechResult callSid from of
        Inr r \<Rightarrow> r
      | Inl (e, db') \<Rightarrow>
          \<lparr> twiml = [Say retry_prompt, Gather], db_after = db', sms_requests = [],
            console = [''Error processing call:''] \<rparr>)"

section \<open>The call handler and the server\<close>

definition greeting :: string where
  "greeting = ''Hello! I'm calling to collect some quick information for our steak cooking service. This will just take a minute.''"

text \<open>The handler of \<^verbatim>\<open>POST /voice\<close>. It has no \<^verbatim>\<open>try\<close>: when \<^verbatim>\<open>getOrCreateSession\<close>
  rejects, no response is sent (\<open>None\<close>).\<close>

definition voice :: "env \<Rightarrow> db \<Rightarrow> string \<Rightarrow> string \<Rightarrow> db \<times> verb list option" where
  "voice env db callSid from =
     (case getOrCreateSession env db callSid from of
        (db', Resolved session) \<Rightarrow> (db', Some [Say greeting, Gather])
      | (db', _) \<Rightarrow> (db', None))"

text \<open>Requests handled one after the other, each with the collaborators as they
  behave during it; the database is what one request leaves to the next.\<close>

datatype request =
  Voice env string string
| GatherSpeech env string string string

fun serve :: "db \<Rightarrow> request list \<Rightarrow> db" where
  "serve db [] = db"
| "serve db (Voice env callSid from # rs) = serve (fst (voice env db callSid from)) rs"
| "serve db (GatherSpeech env speechResult callSid from # rs) =
     serve (db_after (gather env db speechResult callSid from)) rs"

text \<open>The session that \<^verbatim>\<open>getSession\<close> reads for a call.\<close>

definition session_of :: "db \<Rightarrow> string \<Rightarrow> session_row option" where
  "session_of db callSid = find (\<lambda>r. call_sid r = callSid) (call_sessions db)"

subsection \<open>What the stored sessions keep\<close>

text \<open>Every field that is set in the first record is set in the second.\<close>

definition fields_kept :: "info \<Rightarrow> info \<Rightarrow> bool" where
  "fields_kept i j =
     ((name i \<noteq> None \<longrightarrow> name j \<noteq> None) \<and>
      (favoriteColor i \<noteq> None \<longrightarrow> favoriteColor j \<noteq> None) \<and>
      (steakPreference i \<noteq> None \<longrightarrow> steakPreference j \<noteq> None))"

text \<open>The collected data of every stored session is what \<^verbatim>\<open>extractInformation\<close> returns
  on the joined contents of its stored history.\<close>

definition stored_as_extracted :: "db \<Rightarrow> bool" where
  "stored_as_extracted db =
     list_all
       (\<lambda>r. collected_data r = extractInformation (join_sp (map content (conversation_state r))))
       (call_sessions db)"

subsection \<open>Example collaborators and databases\<close>

text \<open>Collaborators that all work, the completion answering \<^verbatim>\<open>Ok.\<close>; the same with the
  completion throwing; the same with Twilio refusing the message.\<close>

definition env_ok :: env where
  "env_ok = \<lparr> sqlite_err = (\<lambda>st. False), openai_create = (\<lambda>messages. Inr ''Ok.''),
              twilio_create = (\<lambda>m. True), twilio_phoneNumber = ''+15550100'' \<rparr>"

definition env_openai_down :: env where
  "env_openai_down = env_ok \<lparr> openai_create := (\<lambda>messages. Inl OpenAIError) \<rparr>"

definition env_twilio_down :: env where
  "env_twilio_down = env_ok \<lparr> twilio_create := (\<lambda>m. False) \<rparr>"

text \<open>The database after the call \<^verbatim>\<open>CA1\<close> was answered and its first and second
  utterance were handled.\<close>

definition db_turn1 :: db where
  "db_turn1 = serve empty_db
     [Voice env_ok ''CA1'' ''+15550199'',
      GatherSpeech env_ok ''Hi, my name is Sam'' ''CA1'' ''+15550199'']"

definition db_turn2 :: db where
  "db_turn2 = serve db_turn1 [GatherSpeech env_ok ''I like blue'' ''CA1'' ''+15550199'']"

text \<open>The whole call: answered, then three utterances, the third completing the record.\<close>

definition example_call :: "request list" where
  "example_call =
     [Voice env_ok ''CA1'' ''+15550199'',
      GatherSpeech env_ok ''Hi, my name is Sam'' ''CA1'' ''+15550199'',
      GatherSpeech env_ok ''I like blue'' ''CA1'' ''+15550199'',
      GatherSpeech env_ok ''Medium well please'' ''CA1'' ''+15550199'']"

section \<open>Properties of the slot extractor\<close>


lemma includes_str_iff: "includes_str t w \<longleftrightarrow> (\<exists>pre post. t = pre @ w @ post)"
proof (induction t)
  case Nil
  then show ?case by auto
next
  case (Cons c cs)
  show ?case
  proof
    assume "includes_str (c # cs) w"
    then consider "prefix w (c # cs)" | "includes_str cs w" by auto
    then show "\<exists>pre post. c # cs = pre @ w @ post"
    proof cases
      case 1
      then obtain post where "c # cs = w @ post" by (auto simp: prefix_def)
      then have "c # cs = [] @ w @ post" by simp
      then show ?thesis by blast
    next
      case 2
      with Cons.IH obtain pre post where "cs = pre @ w @ post" by blast
      then have "c # cs = (c # pre) @ w @ post" by simp
      then show ?thesis by blast
    qed
  next
    assume "\<exists>pre post. c # cs = pre @ w @ post"
    then obtain pre post where eq: "c # cs = pre @ w @ post" by blast
    show "includes_str (c # cs) w"
    proof (cases pre)
      case Nil
      with eq have "prefix w (c # cs)" by (simp add: prefix_def)
      then show ?thesis by simp
    next
      case (Cons p pre')
      with eq have "cs = pre' @ w @ post" by simp
      with Cons.IH have "includes_str cs w" by blast
      then show ?thesis by simp
    qed
  qed
qed

lemma includes_str_append: "includes_str t w \<Longrightarrow> includes_str (a @ t @ e) w"
proof -
  assume "includes_str t w"
  then obtain pre post where "t = pre @ w @ post" by (auto simp: includes_str_iff)
  then have "a @ t @ e = (a @ pre) @ w @ (post @ e)" by simp
  then show ?thesis unfolding includes_str_iff by blast
qed

lemma includes_str_extend: "includes_str t w \<Longrightarrow> includes_str (t @ e) w"
  using includes_str_append [of t w "[]" e] by simp

lemma includes_str_trans:
  "includes_str t big \<Longrightarrow> includes_str big w \<Longrightarrow> includes_str t w"
proof -
  assume "includes_str t big" and "includes_str big w"
  then obtain a e pre post where "t = a @ big @ e" and "big = pre @ w @ post"
    by (auto simp: includes_str_iff)
  then have "t = (a @ pre) @ w @ (post @ e)" by simp
  then show ?thesis unfolding includes_str_iff by blast
qed

lemma toLowerCase_append: "toLowerCase (a @ b) = toLowerCase a @ toLowerCase b"
  by (simp add: toLowerCase_def)

lemma first_included_skip:
  "\<forall>v \<in> set before. \<not> includes_str t v \<Longrightarrow>
   first_included (before @ ws) t = first_included ws t"
  by (induction before) auto

lemma first_included_extend:
  "first_included ws t \<noteq> None \<Longrightarrow> first_included ws (t @ e) \<noteq> None"
proof (induction ws)
  case Nil
  then show ?case by simp
next
  case (Cons w ws)
  show ?case
  proof (cases "includes_str t w")
    case True
    then have "includes_str (t @ e) w" by (rule includes_str_extend)
    then show ?thesis by simp
  next
    case False
    with Cons show ?thesis by simp
  qed
qed

lemma first_included_Some:
  "first_included ws t = Some w \<Longrightarrow> w \<in> set ws \<and> includes_str t w"
  by (induction ws) (auto split: if_splits)

lemma match_cue_extend:
  "match_cue cue s = Some rest \<Longrightarrow> match_cue cue (s @ e) = Some (rest @ e)"
  by (induction cue s rule: match_cue.induct) (auto split: if_splits)

lemma takeWhile_extend: "takeWhile P xs \<noteq> [] \<Longrightarrow> takeWhile P (xs @ e) \<noteq> []"
  by (cases xs) (auto split: if_splits)

lemma match_here_extend:
  "match_here cue s \<noteq> None \<Longrightarrow> match_here cue (s @ e) \<noteq> None"
  by (auto simp: match_here_def Let_def match_cue_extend takeWhile_extend
           split: option.splits if_splits)

lemma match_here_nonempty: "match_here cue s = Some w \<Longrightarrow> w \<noteq> []"
  by (auto simp: match_here_def Let_def split: option.splits if_splits)

lemma regex_match_extend:
  "regex_match cue s \<noteq> None \<Longrightarrow> regex_match cue (s @ e) \<noteq> None"
proof (induction s)
  case Nil
  then show ?case
    using match_here_extend [of cue "[]" e]
    by (cases e) (auto split: option.splits)
next
  case (Cons c cs)
  then show ?case
    using match_here_extend [of cue "c # cs" e]
    by (auto split: option.splits)
qed

lemma regex_match_nonempty: "regex_match cue s = Some w \<Longrightarrow> w \<noteq> []"
  by (induction s) (auto split: option.splits dest: match_here_nonempty)

lemma first_match_extend:
  "first_match ps s \<noteq> None \<Longrightarrow> first_match ps (s @ e) \<noteq> None"
proof (induction ps)
  case Nil
  then show ?case by simp
next
  case (Cons p ps)
  then show ?case
    using regex_match_extend [of p s e]
    by (auto split: option.splits)
qed

lemma first_match_nonempty: "first_match ps s = Some w \<Longrightarrow> w \<noteq> []"
  by (induction ps) (auto split: option.splits dest: regex_match_nonempty)

lemma regex_match_skip:
  "\<forall>i < length pre. match_here cue (drop i (pre @ s)) = None \<Longrightarrow>
   regex_match cue (pre @ s) = regex_match cue s"
proof (induction pre)
  case Nil
  then show ?case by simp
next
  case (Cons c pre)
  from Cons.prems have "match_here cue (drop 0 ((c # pre) @ s)) = None" by blast
  then have here: "match_here cue (c # pre @ s) = None" by simp
  have "\<forall>i < length pre. match_here cue (drop i (pre @ s)) = None"
  proof (intro allI impI)
    fix i assume "i < length pre"
    then have "Suc i < length (c # pre)" by simp
    with Cons.prems have "match_here cue (drop (Suc i) ((c # pre) @ s)) = None" by blast
    then show "match_here cue (drop i (pre @ s)) = None" by simp
  qed
  with Cons.IH have "regex_match cue (pre @ s) = regex_match cue s" .
  with here show ?case by simp
qed

lemma regex_match_here:
  "match_here cue s = Some w \<Longrightarrow> regex_match cue s = Some w"
  by (cases s) auto


lemma all_less_list_all: "(\<forall>i<n. P i) \<longleftrightarrow> list_all P [0..<n]"
  by (auto simp: list_all_iff)

lemma match_cue_self: "match_cue cue (cue @ s) = Some s"
  by (induction cue) auto

lemma extract_name: "name (extractInformation c) = first_match namePatterns c"
  by (simp add: extractInformation_def Let_def)

lemma extract_color:
  "favoriteColor (extractInformation c) = first_included colors (toLowerCase c)"
  by (simp add: extractInformation_def Let_def)

lemma extract_steak:
  "steakPreference (extractInformation c) = first_included steakPrefs (toLowerCase c)"
  by (simp add: extractInformation_def Let_def)

lemma name_first_pattern:
  "regex_match ''my name is '' conversation = Some w \<Longrightarrow>
   name (extractInformation conversation) = Some w"
  by (simp add: extract_name namePatterns_def)

text \<open>
  Claim C1. The claim asks that every transcript whose lower-cased text contains
  \<^verbatim>\<open>medium rare\<close> gets the steak preference \<^verbatim>\<open>medium rare\<close>. In \<^verbatim>\<open>steakPrefs\<close> the word
  \<^verbatim>\<open>rare\<close> stands before \<^verbatim>\<open>medium rare\<close>, and every text that includes the longer
  phrase includes the shorter one: the code returns \<^verbatim>\<open>rare\<close> for every such transcript.
\<close>

theorem steak_medium_rare_is_rare:
  assumes "includes_str (toLowerCase conversation) ''medium rare''"
  shows "steakPreference (extractInformation conversation) = Some ''rare''"
proof -
  have "includes_str ''medium rare'' ''rare''" by code_simp
  with assms have "includes_str (toLowerCase conversation) ''rare''"
    by (rule includes_str_trans)
  then show ?thesis by (simp add: extract_steak steakPrefs_def)
qed

theorem steak_medium_rare_is_rare_witness:
  "includes_str (toLowerCase ''Medium rare, please'') ''medium rare'' \<and>
   steakPreference (extractInformation ''Medium rare, please'') = Some ''rare''"
proof -
  have h: "includes_str (toLowerCase ''Medium rare, please'') ''medium rare''" by code_simp
  from h steak_medium_rare_is_rare [OF h] show ?thesis by blast
qed

text \<open>
  Claim C5. For every transcript whose lower-cased text contains both \<^verbatim>\<open>blue\<close> and
  \<^verbatim>\<open>red\<close>, wherever they stand, the extractor returns the favourite colour \<^verbatim>\<open>red\<close>.
\<close>

theorem color_red_wins_over_blue:
  assumes "includes_str (toLowerCase conversation) ''blue''"
      and "includes_str (toLowerCase conversation) ''red''"
  shows "favoriteColor (extractInformation conversation) = Some ''red''"
  using assms by (simp add: extract_color colors_def)

theorem color_red_wins_over_blue_witness:
  "includes_str (toLowerCase ''I like Blue, not red'') ''blue'' \<and>
   includes_str (toLowerCase ''I like Blue, not red'') ''red'' \<and>
   favoriteColor (extractInformation ''I like Blue, not red'') = Some ''red''"
proof -
  have b: "includes_str (toLowerCase ''I like Blue, not red'') ''blue''" by code_simp
  have r: "includes_str (toLowerCase ''I like Blue, not red'') ''red''" by code_simp
  from b r color_red_wins_over_blue [OF b r] show ?thesis by blast
qed

text \<open>
  Claim C6, as stated, fails: the capture runs to the end of the word, so
  \<^verbatim>\<open>my name is Anabel\<close> yields \<^verbatim>\<open>Anabel\<close>, and the leftmost match of the pattern is
  taken, so an earlier \<^verbatim>\<open>my name is Bob\<close> yields \<^verbatim>\<open>Bob\<close>.
\<close>

theorem name_ana_counterexample:
  "includes_str ''my name is Anabel'' ''my name is Ana'' \<and>
   name (extractInformation ''my name is Anabel'') = Some ''Anabel'' \<and>
   name (extractInformation ''my name is Anabel'') \<noteq> Some ''Ana'' \<and>
   includes_str ''my name is Bob. Sorry, my name is Ana'' ''my name is Ana'' \<and>
   name (extractInformation ''my name is Bob. Sorry, my name is Ana'') = Some ''Bob'' \<and>
   name (extractInformation ''my name is Bob. Sorry, my name is Ana'') \<noteq> Some ''Ana''"
  by code_simp

text \<open>
  Claim C6, amended. When the pattern \<^verbatim>\<open>/my name is (\w+)/i\<close> matches at no position
  before the phrase \<^verbatim>\<open>my name is Ana\<close> and no word character follows the phrase, the
  extractor returns the name \<^verbatim>\<open>Ana\<close>, whatever else the text before and after holds. The
  patterns are tried in the order \<^verbatim>\<open>my name is\<close>, \<^verbatim>\<open>I'm\<close>, \<^verbatim>\<open>this is\<close>, and the first one
  that matches anywhere in the text gives the name.
\<close>

theorem name_ana_first_match:
  assumes "\<forall>i < length pre.
             match_here ''my name is '' (drop i (pre @ ''my name is Ana'' @ post)) = None"
      and "takeWhile is_word_char post = []"
  shows "name (extractInformation (pre @ ''my name is Ana'' @ post)) = Some ''Ana'' \<and>
         name (extractInformation conversation) =
           (case regex_match ''my name is '' conversation of
              Some w \<Rightarrow> Some w
            | None \<Rightarrow>
                (case regex_match ''i'm '' conversation of
                   Some w \<Rightarrow> Some w
                 | None \<Rightarrow> regex_match ''this is '' conversation))"
proof
  have "match_cue ''my name is '' (''my name is '' @ ''Ana'' @ post) = Some (''Ana'' @ post)"
    by (rule match_cue_self)
  moreover have "takeWhile is_word_char (''Ana'' @ post) = ''Ana''"
    using assms(2) by (simp add: is_word_char_def)
  ultimately have "match_here ''my name is '' (''my name is Ana'' @ post) = Some ''Ana''"
    by (simp add: match_here_def)
  then have "regex_match ''my name is '' (''my name is Ana'' @ post) = Some ''Ana''"
    by (rule regex_match_here)
  with regex_match_skip [OF assms(1)]
  have "regex_match ''my name is '' (pre @ ''my name is Ana'' @ post) = Some ''Ana''"
    by simp
  then show "name (extractInformation (pre @ ''my name is Ana'' @ post)) = Some ''Ana''"
    by (rule name_first_pattern)
next
  show "name (extractInformation conversation) =
           (case regex_match ''my name is '' conversation of
              Some w \<Rightarrow> Some w
            | None \<Rightarrow>
                (case regex_match ''i'm '' conversation of
                   Some w \<Rightarrow> Some w
                 | None \<Rightarrow> regex_match ''this is '' conversation))"
    by (simp add: extract_name namePatterns_def split: option.splits)
qed

theorem name_ana_first_match_witness:
  "list_all
     (\<lambda>i. match_here ''my name is ''
            (drop i (''I'm Bob, '' @ ''my name is Ana'' @ ''. This is Al'')) = None)
     [0 ..< length ''I'm Bob, ''] \<and>
   takeWhile is_word_char ''. This is Al'' = [] \<and>
   name (extractInformation (''I'm Bob, '' @ ''my name is Ana'' @ ''. This is Al'')) = Some ''Ana''"
proof -
  have a: "list_all
     (\<lambda>i. match_here ''my name is ''
            (drop i (''I'm Bob, '' @ ''my name is Ana'' @ ''. This is Al'')) = None)
     [0 ..< length ''I'm Bob, '']"
    by code_simp
  then have a': "\<forall>i < length ''I'm Bob, ''.
      match_here ''my name is '' (drop i (''I'm Bob, '' @ ''my name is Ana'' @ ''. This is Al'')) = None"
    unfolding all_less_list_all .
  have b: "takeWhile is_word_char ''. This is Al'' = []" by code_simp
  from a b name_ana_first_match [OF a' b] show ?thesis by blast
qed

text \<open>
  Claim C10, as stated, fails for a colour that is not the first of the vocabulary to
  occur: \<^verbatim>\<open>a pinkish boredom\<close> contains \<^verbatim>\<open>pink\<close> inside a larger word, and the favourite
  colour is \<^verbatim>\<open>red\<close>.
\<close>

theorem color_substring_counterexample:
  "includes_str (toLowerCase ''a pinkish boredom'') ''pink'' \<and>
   includes_str ''pinkish'' ''pink'' \<and>
   favoriteColor (extractInformation ''a pinkish boredom'') = Some ''red'' \<and>
   favoriteColor (extractInformation ''a pinkish boredom'') \<noteq> Some ''pink''"
  by code_simp

text \<open>
  Claim C10, amended. Colours are found as raw substrings of the lower-cased text:
  every transcript that contains \<^verbatim>\<open>bored\<close> gets the favourite colour \<^verbatim>\<open>red\<close>, and a
  vocabulary colour that occurs inside a larger word of the text is the favourite colour
  whenever no colour earlier in the vocabulary occurs in the text.
\<close>

theorem color_substring_first_in_order:
  "(includes_str (toLowerCase conversation) ''bored'' \<longrightarrow>
      favoriteColor (extractInformation conversation) = Some ''red'') \<and>
   (colors = earlier @ color # later \<and> includes_str larger color \<and>
    includes_str (toLowerCase conversation) larger \<and>
    (\<forall>c \<in> set earlier. \<not> includes_str (toLowerCase conversation) c) \<longrightarrow>
      favoriteColor (extractInformation conversation) = Some color)"
proof (intro conjI impI)
  assume "includes_str (toLowerCase conversation) ''bored''"
  moreover have "includes_str ''bored'' ''red''" by code_simp
  ultimately have "includes_str (toLowerCase conversation) ''red''"
    by (rule includes_str_trans)
  then show "favoriteColor (extractInformation conversation) = Some ''red''"
    by (simp add: extract_color colors_def)
next
  assume h: "colors = earlier @ color # later \<and> includes_str larger color \<and>
    includes_str (toLowerCase conversation) larger \<and>
    (\<forall>c \<in> set earlier. \<not> includes_str (toLowerCase conversation) c)"
  then have "includes_str (toLowerCase conversation) color"
    using includes_str_trans by blast
  moreover from h have "first_included colors (toLowerCase conversation) =
      first_included (color # later) (toLowerCase conversation)"
    using first_included_skip [of earlier "toLowerCase conversation" "color # later"] by simp
  ultimately show "favoriteColor (extractInformation conversation) = Some color"
    by (simp add: extract_color)
qed

theorem color_substring_first_in_order_witness:
  "includes_str (toLowerCase ''I am so Bored'') ''bored'' \<and>
   favoriteColor (extractInformation ''I am so Bored'') = Some ''red'' \<and>
   colors = [''red'', ''blue'', ''green'', ''yellow'', ''purple'', ''orange''] @
            ''pink'' # [''black'', ''white'', ''brown''] \<and>
   includes_str ''pinkish'' ''pink'' \<and>
   includes_str (toLowerCase ''A Pinkish hue'') ''pinkish'' \<and>
   list_all (\<lambda>c. \<not> includes_str (toLowerCase ''A Pinkish hue'') c)
     [''red'', ''blue'', ''green'', ''yellow'', ''purple'', ''orange''] \<and>
   favoriteColor (extractInformation ''A Pinkish hue'') = Some ''pink''"
proof -
  have a: "includes_str (toLowerCase ''I am so Bored'') ''bored''" by code_simp
  have b: "colors = [''red'', ''blue'', ''green'', ''yellow'', ''purple'', ''orange''] @
            ''pink'' # [''black'', ''white'', ''brown'']"
    by (simp add: colors_def)
  have c: "includes_str ''pinkish'' ''pink''" by code_simp
  have d: "includes_str (toLowerCase ''A Pinkish hue'') ''pinkish''" by code_simp
  have e: "list_all (\<lambda>c. \<not> includes_str (toLowerCase ''A Pinkish hue'') c)
     [''red'', ''blue'', ''green'', ''yellow'', ''purple'', ''orange'']"
    by code_simp
  then have e': "\<forall>c \<in> set [''red'', ''blue'', ''green'', ''yellow'', ''purple'', ''orange''].
     \<not> includes_str (toLowerCase ''A Pinkish hue'') c"
    unfolding list_all_iff .
  have "favoriteColor (extractInformation ''I am so Bored'') = Some ''red''"
    using a color_substring_first_in_order [of "''I am so Bored''"] by blast
  moreover have "favoriteColor (extractInformation ''A Pinkish hue'') = Some ''pink''"
    using b c d e'
      color_substring_first_in_order [of "''A Pinkish hue''"
        "[''red'', ''blue'', ''green'', ''yellow'', ''purple'', ''orange'']" "''pink''"
        "[''black'', ''white'', ''brown'']" "''pinkish''"]
    by blast
  ultimately show ?thesis using a b c d e by blast
qed

section \<open>Properties of the speech handler\<close>


lemma truthy_name: "truthy (name (extractInformation c)) \<longleftrightarrow> name (extractInformation c) \<noteq> None"
  by (cases "name (extractInformation c)") (auto simp: extract_name dest: first_match_nonempty)

lemma first_included_nonempty:
  "[] \<notin> set ws \<Longrightarrow> first_included ws t = Some w \<Longrightarrow> w \<noteq> []"
  using first_included_Some [of ws t w] by auto

lemma truthy_color:
  "truthy (favoriteColor (extractInformation c)) \<longleftrightarrow> favoriteColor (extractInformation c) \<noteq> None"
proof (cases "favoriteColor (extractInformation c)")
  case None
  then show ?thesis by simp
next
  case (Some w)
  have "[] \<notin> set colors" by (simp add: colors_def)
  with Some have "w \<noteq> []"
    unfolding extract_color by (blast dest: first_included_nonempty)
  with Some show ?thesis by simp
qed

lemma truthy_steak:
  "truthy (steakPreference (extractInformation c)) \<longleftrightarrow> steakPreference (extractInformation c) \<noteq> None"
proof (cases "steakPreference (extractInformation c)")
  case None
  then show ?thesis by simp
next
  case (Some w)
  have "[] \<notin> set steakPrefs" by (simp add: steakPrefs_def)
  with Some have "w \<noteq> []"
    unfolding extract_steak by (blast dest: first_included_nonempty)
  with Some show ?thesis by simp
qed

lemma getSession_session_of:
  "getSession env db callSid =
     (if sqlite_err env SelectSession then Inl SqliteError else Inr (session_of db callSid))"
  by (simp add: getSession_def session_of_def)

lemma session_of_None_iff:
  "session_of db callSid = None \<longleftrightarrow> (\<forall>r \<in> set (call_sessions db). call_sid r \<noteq> callSid)"
  by (auto simp: session_of_def find_None_iff)

text \<open>
  Claim C2. When the session is loaded and the generation collaborator throws, the
  handler answers with the retry prompt and gathers speech again, sends no message, and
  leaves the database as it was: the session read for the call afterwards is the same
  row, with the same collected data and a history without the utterance of the failed
  turn.
\<close>

theorem generation_failure_keeps_session:
  assumes "getSession env db callSid = Inr (Some session)"
      and "generateResponse env
             (slice_last 6 (conversation_state session @ [\<lparr> role = User, content = speechResult \<rparr>]))
             speechResult = Inl e"
  shows "twiml (gather env db speechResult callSid from) = [Say retry_prompt, Gather] \<and>
         db_after (gather env db speechResult callSid from) = db \<and>
         getSession env (db_after (gather env db speechResult callSid from)) callSid =
           Inr (Some session) \<and>
         sms_requests (gather env db speechResult callSid from) = []"
  using assms by (simp add: gather_def gather_try_def Let_def)

text \<open>
  Claim C4, as stated, fails: on a database without a session for the call,
  \<^verbatim>\<open>getSession\<close> resolves with \<^verbatim>\<open>undefined\<close>; it does not fail.
\<close>

theorem getSession_missing_counterexample:
  "session_of empty_db ''CA404'' = None \<and> getSession env_ok empty_db ''CA404'' = Inr None"
  by code_simp

text \<open>
  Claim C4, amended. When no session exists for the call, \<^verbatim>\<open>getSession\<close> resolves with
  \<^verbatim>\<open>undefined\<close> (it rejects only when the query itself fails), and the failure shows in
  the speech handler: reading the missing session throws, the handler answers with the
  retry prompt, gathers speech again and leaves the database unchanged.
\<close>

theorem getSession_missing_resolves:
  assumes "\<forall>r \<in> set (call_sessions db). call_sid r \<noteq> callSid"
  shows "getSession env db callSid =
           (if sqlite_err env SelectSession then Inl SqliteError else Inr None) \<and>
         gather env db speechResult callSid from =
           \<lparr> twiml = [Say retry_prompt, Gather], db_after = db, sms_requests = [],
             console = [''Error processing call:''] \<rparr>"
proof -
  from assms have "session_of db callSid = None" by (simp add: session_of_None_iff)
  then show ?thesis
    by (simp add: getSession_session_of gather_def gather_try_def)
qed


lemma sendSteak_requests:
  "steakPreference i = Some p \<Longrightarrow>
   \<exists>m ls. sendSteakInstructions env phoneNumber i = Inr ([m], ls) \<and> sms_to m = phoneNumber \<and>
          body_name m = name i \<and> body_favoriteColor m = favoriteColor i \<and>
          body_steakPreference m = p \<and>
          ls = (if twilio_create env m then [''Sent steak instructions to '' @ phoneNumber]
                else [''Error sending SMS:''])"
  by (simp add: sendSteakInstructions_def Let_def)

lemma gather_try_reached:
  assumes "getSession env db callSid = Inr (Some session)"
      and "generateResponse env
             (slice_last 6 (conversation_state session @ [\<lparr> role = User, content = speechResult \<rparr>]))
             speechResult = Inr aiResponse"
      and "ei = extractInformation (join_sp (map content
             (conversation_state session @
              [\<lparr> role = User, content = speechResult \<rparr>,
               \<lparr> role = Assistant, content = aiResponse \<rparr>])))"
      and "updateSession env db callSid
             (conversation_state session @
              [\<lparr> role = User, content = speechResult \<rparr>,
               \<lparr> role = Assistant, content = aiResponse \<rparr>]) ei = Inr db1"
  shows "gather_try env db speechResult callSid from =
           (if truthy (name ei) \<and> truthy (favoriteColor ei) \<and> truthy (steakPreference ei)
            then (case saveCustomerData env db1 from ei of
                    Inl e \<Rightarrow> Inl (e, db1)
                  | Inr db2 \<Rightarrow>
                      (case sendSteakInstructions env from ei of
                         Inl e \<Rightarrow> Inl (e, db2)
                       | Inr (msgs, lines) \<Rightarrow>
                           Inr \<lparr> twiml = [Say (closing_prompt (name ei)), Hangup],
                                 db_after = db2, sms_requests = msgs, console = lines \<rparr>))
            else Inr \<lparr> twiml = [Say aiResponse, Gather], db_after = db1,
                       sms_requests = [], console = [] \<rparr>)"
  using assms by (simp add: gather_try_def Let_def cong: sum.case_cong)

text \<open>
  Claim C3. In a turn whose session is loaded, whose generation returns and whose
  statements succeed, the call is ended (the completed outcome) exactly when the record
  extracted from the whole history, the new utterance and answer included, has all three
  fields. Then the closing prompt holds the extracted name, the customers table holds
  exactly one row for the caller's number, with the three extracted fields, and one
  message to the caller is handed to Twilio. Otherwise the generated text is spoken and
  speech is gathered again, the table is untouched and no message is sent.
\<close>

theorem gather_complete_iff_all_fields:
  assumes "\<not> sqlite_err env SelectSession" and "\<not> sqlite_err env UpdateSession"
      and "\<not> sqlite_err env ReplaceCustomer"
      and "session_of db callSid = Some session"
      and "generateResponse env
             (slice_last 6 (conversation_state session @ [\<lparr> role = User, content = speechResult \<rparr>]))
             speechResult = Inr aiResponse"
      and "extractedInfo = extractInformation (join_sp (map content
             (conversation_state session @
              [\<lparr> role = User, content = speechResult \<rparr>,
               \<lparr> role = Assistant, content = aiResponse \<rparr>])))"
      and "r = gather env db speechResult callSid from"
  shows "(Hangup \<in> set (twiml r) \<longleftrightarrow>
            name extractedInfo \<noteq> None \<and> favoriteColor extractedInfo \<noteq> None \<and>
            steakPreference extractedInfo \<noteq> None) \<and>
         (Hangup \<in> set (twiml r) \<longrightarrow>
            (\<exists>n. name extractedInfo = Some n \<and>
                 twiml r = [Say (''Perfect! Thanks '' @ n @ ''. I've got your information and you'll receive a text with your personalized steak cooking instructions shortly. Have a great day!''), Hangup]) \<and>
            filter (\<lambda>c. c_phone_number c = from) (customers (db_after r)) =
              [\<lparr> c_id = customers_seq db + 1, c_phone_number = from,
                 c_name = name extractedInfo, c_favorite_color = favoriteColor extractedInfo,
                 c_steak_preference = steakPreference extractedInfo \<rparr>] \<and>
            (\<exists>m. sms_requests r = [m] \<and> sms_to m = from \<and> body_name m = name extractedInfo \<and>
                 body_favoriteColor m = favoriteColor extractedInfo \<and>
                 Some (body_steakPreference m) = steakPreference extractedInfo)) \<and>
         (Hangup \<notin> set (twiml r) \<longrightarrow>
            twiml r = [Say aiResponse, Gather] \<and> customers (db_after r) = customers db \<and>
            sms_requests r = [])"
proof -
  let ?u = "\<lparr> role = User, content = speechResult \<rparr>"
  let ?a = "\<lparr> role = Assistant, content = aiResponse \<rparr>"
  let ?h = "conversation_state session @ [?u, ?a]"
  let ?all = "name extractedInfo \<noteq> None \<and> favoriteColor extractedInfo \<noteq> None \<and>
            steakPreference extractedInfo \<noteq> None"
  let ?t = "truthy (name extractedInfo) \<and> truthy (favoriteColor extractedInfo) \<and>
            truthy (steakPreference extractedInfo)"
  have tr: "?t \<longleftrightarrow> ?all"
    unfolding assms(6) by (simp only: truthy_name truthy_color truthy_steak)
  obtain db1 where up: "updateSession env db callSid ?h extractedInfo = Inr db1"
    and c1: "customers db1 = customers db" and s1: "customers_seq db1 = customers_seq db"
    using assms(2) by (simp add: updateSession_def)
  have gs: "getSession env db callSid = Inr (Some session)"
    using assms(1,4) by (simp add: getSession_session_of)
  note reached = gather_try_reached [OF gs assms(5) assms(6) up, of "from"]
  show ?thesis
  proof (cases ?all)
    case False
    with tr have nt: "\<not> ?t" by blast
    from reached have "gather_try env db speechResult callSid from =
            Inr \<lparr> twiml = [Say aiResponse, Gather], db_after = db1, sms_requests = [],
                  console = [] \<rparr>"
      by (simp only: if_not_P [OF nt])
    then have "r = \<lparr> twiml = [Say aiResponse, Gather], db_after = db1, sms_requests = [],
                  console = [] \<rparr>"
      by (simp add: assms(7) gather_def)
    with False c1 show ?thesis by simp
  next
    case True
    then obtain n p where n: "name extractedInfo = Some n"
      and p: "steakPreference extractedInfo = Some p" by auto
    from True tr have t: ?t by blast
    let ?row = "\<lparr> c_id = customers_seq db + 1, c_phone_number = from,
                 c_name = name extractedInfo, c_favorite_color = favoriteColor extractedInfo,
                 c_steak_preference = steakPreference extractedInfo \<rparr>"
    obtain db2 where sv: "saveCustomerData env db1 from extractedInfo = Inr db2"
      and c2: "customers db2 = filter (\<lambda>c. c_phone_number c \<noteq> from) (customers db1) @ [?row]"
      using assms(3) s1 by (simp add: saveCustomerData_def)
    from sendSteak_requests [OF p, of env "from"]
    obtain m ls where sd: "sendSteakInstructions env from extractedInfo = Inr ([m], ls)"
      and m: "sms_to m = from" "body_name m = name extractedInfo"
             "body_favoriteColor m = favoriteColor extractedInfo" "body_steakPreference m = p"
      by blast
    from reached have "gather_try env db speechResult callSid from =
           (case saveCustomerData env db1 from extractedInfo of
                    Inl e \<Rightarrow> Inl (e, db1)
                  | Inr db2 \<Rightarrow>
                      (case sendSteakInstructions env from extractedInfo of
                         Inl e \<Rightarrow> Inl (e, db2)
                       | Inr (msgs, lines) \<Rightarrow>
                           Inr \<lparr> twiml = [Say (closing_prompt (name extractedInfo)), Hangup],
                                 db_after = db2, sms_requests = msgs, console = lines \<rparr>))"
      by (simp only: if_P [OF t])
    then have "gather_try env db speechResult callSid from =
            Inr \<lparr> twiml = [Say (closing_prompt (name extractedInfo)), Hangup], db_after = db2,
                  sms_requests = [m], console = ls \<rparr>"
      by (simp add: sv sd)
    then have r: "r = \<lparr> twiml = [Say (closing_prompt (name extractedInfo)), Hangup], db_after = db2,
                  sms_requests = [m], console = ls \<rparr>"
      by (simp add: assms(7) gather_def)
    have f: "filter (\<lambda>c. c_phone_number c = from) (customers db2) = [?row]"
      unfolding c2 by (simp add: filter_empty_conv)
    from True r n p m f show ?thesis
      by (simp add: closing_prompt_def)
  qed
qed


lemma getSession_twilio [simp]:
  "getSession (env \<lparr> twilio_create := f \<rparr>) db callSid = getSession env db callSid"
  by (simp add: getSession_def)

lemma generateResponse_twilio [simp]:
  "generateResponse (env \<lparr> twilio_create := f \<rparr>) h u = generateResponse env h u"
  by (simp add: generateResponse_def)

lemma updateSession_twilio [simp]:
  "updateSession (env \<lparr> twilio_create := f \<rparr>) db callSid h i = updateSession env db callSid h i"
  by (simp add: updateSession_def)

lemma saveCustomerData_twilio [simp]:
  "saveCustomerData (env \<lparr> twilio_create := f \<rparr>) db ph i = saveCustomerData env db ph i"
  by (simp add: saveCustomerData_def)

lemma sendSteak_cases:
  "sendSteakInstructions env ph i = Inl TypeError \<and> steakPreference i = None \<or>
   (\<exists>m. sendSteakInstructions env ph i =
          Inr ([m], if twilio_create env m then [''Sent steak instructions to '' @ ph]
                    else [''Error sending SMS:'']) \<and>
        (\<forall>f. sendSteakInstructions (env \<lparr> twilio_create := f \<rparr>) ph i =
          Inr ([m], if f m then [''Sent steak instructions to '' @ ph]
                    else [''Error sending SMS:''])))"
  by (cases "steakPreference i") (simp_all add: sendSteakInstructions_def Let_def)

lemma saveCustomerData_has_row:
  "saveCustomerData env db ph i = Inr db2 \<Longrightarrow> ph \<in> set (map c_phone_number (customers db2))"
  by (auto simp: saveCustomerData_def split: if_splits)


lemma gather_complete_form:
  assumes "Hangup \<in> set (twiml (gather env db speechResult callSid from))"
  shows "\<exists>session aiResponse db1 db2 ei msgs lines.
           getSession env db callSid = Inr (Some session) \<and>
           generateResponse env
             (slice_last 6 (conversation_state session @ [\<lparr> role = User, content = speechResult \<rparr>]))
             speechResult = Inr aiResponse \<and>
           ei = extractInformation (join_sp (map content
             (conversation_state session @
              [\<lparr> role = User, content = speechResult \<rparr>,
               \<lparr> role = Assistant, content = aiResponse \<rparr>]))) \<and>
           updateSession env db callSid
             (conversation_state session @
              [\<lparr> role = User, content = speechResult \<rparr>,
               \<lparr> role = Assistant, content = aiResponse \<rparr>]) ei = Inr db1 \<and>
           truthy (name ei) \<and> truthy (favoriteColor ei) \<and> truthy (steakPreference ei) \<and>
           saveCustomerData env db1 from ei = Inr db2 \<and>
           sendSteakInstructions env from ei = Inr (msgs, lines) \<and>
           gather env db speechResult callSid from =
             \<lparr> twiml = [Say (closing_prompt (name ei)), Hangup], db_after = db2,
               sms_requests = msgs, console = lines \<rparr>"
  using assms
  by (auto simp: gather_def gather_try_def Let_def
      split: sum.splits option.splits prod.splits if_splits)

text \<open>
  Claim C9. In a completed turn, a failing delivery of the text message changes
  nothing but the console: the response is the one of the same turn with the delivery
  succeeding (the closing prompt and a hang-up, no further gather), the database is the
  same and holds the customer's row, the message was handed to Twilio once, and the
  console holds the error line.
\<close>

theorem sms_failure_is_swallowed:
  assumes "\<forall>m. \<not> twilio_create env m"
      and "r = gather env db speechResult callSid from"
      and "r_ok = gather (env \<lparr> twilio_create := (\<lambda>m. True) \<rparr>) db speechResult callSid from"
      and "Hangup \<in> set (twiml r_ok)"
  shows "twiml r = twiml r_ok \<and> Hangup \<in> set (twiml r) \<and> Gather \<notin> set (twiml r) \<and>
         db_after r = db_after r_ok \<and>
         from \<in> set (map c_phone_number (customers (db_after r))) \<and>
         sms_requests r = sms_requests r_ok \<and> length (sms_requests r) = 1 \<and>
         console r = [''Error sending SMS:'']"
proof -
  let ?env' = "env \<lparr> twilio_create := (\<lambda>m. True) \<rparr>"
  from assms(4) have "Hangup \<in> set (twiml (gather ?env' db speechResult callSid from))"
    by (simp add: assms(3))
  from gather_complete_form [OF this]
  obtain session aiResponse db1 db2 ei msgs lines where
    gs: "getSession env db callSid = Inr (Some session)" and
    gen: "generateResponse env
             (slice_last 6 (conversation_state session @ [\<lparr> role = User, content = speechResult \<rparr>]))
             speechResult = Inr aiResponse" and
    ei: "ei = extractInformation (join_sp (map content
             (conversation_state session @
              [\<lparr> role = User, content = speechResult \<rparr>,
               \<lparr> role = Assistant, content = aiResponse \<rparr>])))" and
    up: "updateSession env db callSid
             (conversation_state session @
              [\<lparr> role = User, content = speechResult \<rparr>,
               \<lparr> role = Assistant, content = aiResponse \<rparr>]) ei = Inr db1" and
    t: "truthy (name ei) \<and> truthy (favoriteColor ei) \<and> truthy (steakPreference ei)" and
    sv: "saveCustomerData env db1 from ei = Inr db2" and
    sd': "sendSteakInstructions ?env' from ei = Inr (msgs, lines)" and
    ok: "r_ok = \<lparr> twiml = [Say (closing_prompt (name ei)), Hangup], db_after = db2,
               sms_requests = msgs, console = lines \<rparr>"
    unfolding assms(3) getSession_twilio generateResponse_twilio updateSession_twilio
      saveCustomerData_twilio
    by blast
  from sendSteak_cases [of env "from" ei] sd' obtain m where
    sd: "sendSteakInstructions env from ei =
          Inr ([m], if twilio_create env m then [''Sent steak instructions to '' @ from]
                    else [''Error sending SMS:''])" and
    all: "\<forall>f. sendSteakInstructions (env \<lparr> twilio_create := f \<rparr>) from ei =
          Inr ([m], if f m then [''Sent steak instructions to '' @ from]
                    else [''Error sending SMS:''])"
    by (auto simp: sendSteakInstructions_def)
  from all sd' have msgs: "msgs = [m]" by simp
  from sd assms(1) have sd0: "sendSteakInstructions env from ei = Inr ([m], [''Error sending SMS:''])"
    by simp
  have "gather_try env db speechResult callSid from =
          Inr \<lparr> twiml = [Say (closing_prompt (name ei)), Hangup], db_after = db2,
                sms_requests = [m], console = [''Error sending SMS:''] \<rparr>"
    unfolding gather_try_reached [OF gs gen ei up, of "from"] if_P [OF t]
    by (simp add: sv sd0)
  then have r: "r = \<lparr> twiml = [Say (closing_prompt (name ei)), Hangup], db_after = db2,
                sms_requests = [m], console = [''Error sending SMS:''] \<rparr>"
    by (simp add: assms(2) gather_def)
  from saveCustomerData_has_row [OF sv] r ok msgs show ?thesis by simp
qed


theorem generation_failure_keeps_session_witness:
  "getSession env_openai_down db_turn1 ''CA1'' = Inr (Some (hd (call_sessions db_turn1))) \<and>
   generateResponse env_openai_down
     (slice_last 6 (conversation_state (hd (call_sessions db_turn1)) @
                    [\<lparr> role = User, content = ''I like blue'' \<rparr>]))
     ''I like blue'' = Inl OpenAIError \<and>
   map content (conversation_state (hd (call_sessions db_turn1))) = [''Hi, my name is Sam'', ''Ok.''] \<and>
   name (collected_data (hd (call_sessions db_turn1))) = Some ''Sam'' \<and>
   twiml (gather env_openai_down db_turn1 ''I like blue'' ''CA1'' ''+15550199'') =
     [Say retry_prompt, Gather] \<and>
   db_after (gather env_openai_down db_turn1 ''I like blue'' ''CA1'' ''+15550199'') = db_turn1 \<and>
   getSession env_openai_down
     (db_after (gather env_openai_down db_turn1 ''I like blue'' ''CA1'' ''+15550199'')) ''CA1'' =
     Inr (Some (hd (call_sessions db_turn1)))"
proof -
  have a: "getSession env_openai_down db_turn1 ''CA1'' = Inr (Some (hd (call_sessions db_turn1)))"
    by code_simp
  have b: "generateResponse env_openai_down
     (slice_last 6 (conversation_state (hd (call_sessions db_turn1)) @
                    [\<lparr> role = User, content = ''I like blue'' \<rparr>]))
     ''I like blue'' = Inl OpenAIError"
    by (simp add: generateResponse_def env_openai_down_def)
  have c: "map content (conversation_state (hd (call_sessions db_turn1))) =
             [''Hi, my name is Sam'', ''Ok.'']"
    by code_simp
  have d: "name (collected_data (hd (call_sessions db_turn1))) = Some ''Sam''"
    by code_simp
  from a b c d generation_failure_keeps_session [OF a b, of "''+15550199''"]
  show ?thesis by blast
qed

theorem getSession_missing_resolves_witness:
  "list_all (\<lambda>r. call_sid r \<noteq> ''CA404'') (call_sessions db_turn1) \<and>
   getSession env_ok db_turn1 ''CA404'' = Inr None \<and>
   gather env_ok db_turn1 ''Hello'' ''CA404'' ''+15550142'' =
     \<lparr> twiml = [Say retry_prompt, Gather], db_after = db_turn1, sms_requests = [],
       console = [''Error processing call:''] \<rparr>"
proof -
  have a: "list_all (\<lambda>r. call_sid r \<noteq> ''CA404'') (call_sessions db_turn1)" by code_simp
  then have a': "\<forall>r \<in> set (call_sessions db_turn1). call_sid r \<noteq> ''CA404''"
    unfolding list_all_iff .
  have e: "\<not> sqlite_err env_ok SelectSession" by (simp add: env_ok_def)
  from getSession_missing_resolves [OF a', of env_ok "''Hello''" "''+15550142''"] e a
  show ?thesis by simp
qed

theorem gather_complete_iff_all_fields_witness:
  "session_of db_turn2 ''CA1'' = Some (hd (call_sessions db_turn2)) \<and>
   Hangup \<in> set (twiml (gather env_ok db_turn2 ''Medium well please'' ''CA1'' ''+15550199'')) \<and>
   twiml (gather env_ok db_turn2 ''Medium well please'' ''CA1'' ''+15550199'') =
     [Say (''Perfect! Thanks '' @ ''Sam'' @ ''. I've got your information and you'll receive a text with your personalized steak cooking instructions shortly. Have a great day!''), Hangup] \<and>
   filter (\<lambda>c. c_phone_number c = ''+15550199'')
     (customers (db_after (gather env_ok db_turn2 ''Medium well please'' ''CA1'' ''+15550199''))) =
     [\<lparr> c_id = customers_seq db_turn2 + 1, c_phone_number = ''+15550199'',
        c_name = Some ''Sam'', c_favorite_color = Some ''blue'',
        c_steak_preference = Some ''medium well'' \<rparr>] \<and>
   map sms_to (sms_requests (gather env_ok db_turn2 ''Medium well please'' ''CA1'' ''+15550199'')) =
     [''+15550199''] \<and>
   session_of db_turn1 ''CA1'' = Some (hd (call_sessions db_turn1)) \<and>
   Hangup \<notin> set (twiml (gather env_ok db_turn1 ''I like blue'' ''CA1'' ''+15550199'')) \<and>
   twiml (gather env_ok db_turn1 ''I like blue'' ''CA1'' ''+15550199'') = [Say ''Ok.'', Gather] \<and>
   sms_requests (gather env_ok db_turn1 ''I like blue'' ''CA1'' ''+15550199'') = []"
proof -
  let ?i3 = "\<lparr> name = Some ''Sam'', favoriteColor = Some ''blue'',
               steakPreference = Some ''medium well'' \<rparr>"
  let ?i2 = "\<lparr> name = Some ''Sam'', favoriteColor = Some ''blue'', steakPreference = None \<rparr>"
  let ?r3 = "gather env_ok db_turn2 ''Medium well please'' ''CA1'' ''+15550199''"
  let ?r2 = "gather env_ok db_turn1 ''I like blue'' ''CA1'' ''+15550199''"
  have e: "\<not> sqlite_err env_ok SelectSession" "\<not> sqlite_err env_ok UpdateSession"
          "\<not> sqlite_err env_ok ReplaceCustomer"
    by (simp_all add: env_ok_def)
  have s3: "session_of db_turn2 ''CA1'' = Some (hd (call_sessions db_turn2))" by code_simp
  have s2: "session_of db_turn1 ''CA1'' = Some (hd (call_sessions db_turn1))" by code_simp
  have g3: "generateResponse env_ok
              (slice_last 6 (conversation_state (hd (call_sessions db_turn2)) @
                             [\<lparr> role = User, content = ''Medium well please'' \<rparr>]))
              ''Medium well please'' = Inr ''Ok.''"
    by (simp add: generateResponse_def env_ok_def)
  have g2: "generateResponse env_ok
              (slice_last 6 (conversation_state (hd (call_sessions db_turn1)) @
                             [\<lparr> role = User, content = ''I like blue'' \<rparr>]))
              ''I like blue'' = Inr ''Ok.''"
    by (simp add: generateResponse_def env_ok_def)
  have x3: "?i3 = extractInformation (join_sp (map content
              (conversation_state (hd (call_sessions db_turn2)) @
               [\<lparr> role = User, content = ''Medium well please'' \<rparr>,
                \<lparr> role = Assistant, content = ''Ok.'' \<rparr>])))"
    by code_simp
  have x2: "?i2 = extractInformation (join_sp (map content
              (conversation_state (hd (call_sessions db_turn1)) @
               [\<lparr> role = User, content = ''I like blue'' \<rparr>,
                \<lparr> role = Assistant, content = ''Ok.'' \<rparr>])))"
    by code_simp
  note t3 = gather_complete_iff_all_fields [OF e s3 g3 x3 refl [of ?r3]]
  note t2 = gather_complete_iff_all_fields [OF e s2 g2 x2 refl [of ?r2]]
  from t3 have h3: "Hangup \<in> set (twiml ?r3)" by simp
  from t2 have h2: "Hangup \<notin> set (twiml ?r2)" by simp
  from t3 h3 have c3: "twiml ?r3 =
     [Say (''Perfect! Thanks '' @ ''Sam'' @ ''. I've got your information and you'll receive a text with your personalized steak cooking instructions shortly. Have a great day!''), Hangup]"
    and f3: "filter (\<lambda>c. c_phone_number c = ''+15550199'') (customers (db_after ?r3)) =
     [\<lparr> c_id = customers_seq db_turn2 + 1, c_phone_number = ''+15550199'',
        c_name = Some ''Sam'', c_favorite_color = Some ''blue'',
        c_steak_preference = Some ''medium well'' \<rparr>]"
    and m3: "map sms_to (sms_requests ?r3) = [''+15550199'']"
    by auto
  from t2 h2 have c2: "twiml ?r2 = [Say ''Ok.'', Gather]" and m2: "sms_requests ?r2 = []"
    by blast+
  from s3 h3 c3 f3 m3 s2 h2 c2 m2 show ?thesis by blast
qed

theorem sms_failure_is_swallowed_witness:
  "(\<forall>m. \<not> twilio_create env_twilio_down m) \<and>
   Hangup \<in> set (twiml (gather (env_twilio_down \<lparr> twilio_create := (\<lambda>m. True) \<rparr>) db_turn2
                          ''Medium well please'' ''CA1'' ''+15550199'')) \<and>
   twiml (gather env_twilio_down db_turn2 ''Medium well please'' ''CA1'' ''+15550199'') =
     twiml (gather (env_twilio_down \<lparr> twilio_create := (\<lambda>m. True) \<rparr>) db_turn2
              ''Medium well please'' ''CA1'' ''+15550199'') \<and>
   Hangup \<in> set (twiml (gather env_twilio_down db_turn2 ''Medium well please'' ''CA1'' ''+15550199'')) \<and>
   ''+15550199'' \<in> set (map c_phone_number (customers (db_after
      (gather env_twilio_down db_turn2 ''Medium well please'' ''CA1'' ''+15550199'')))) \<and>
   length (sms_requests
      (gather env_twilio_down db_turn2 ''Medium well please'' ''CA1'' ''+15550199'')) = 1 \<and>
   console (gather env_twilio_down db_turn2 ''Medium well please'' ''CA1'' ''+15550199'') =
     [''Error sending SMS:'']"
proof -
  have a: "\<forall>m. \<not> twilio_create env_twilio_down m"
    by (simp add: env_twilio_down_def)
  have b: "Hangup \<in> set (twiml (gather (env_twilio_down \<lparr> twilio_create := (\<lambda>m. True) \<rparr>) db_turn2
                          ''Medium well please'' ''CA1'' ''+15550199''))"
    by code_simp
  from a b sms_failure_is_swallowed [OF a refl refl b] show ?thesis by blast
qed

section \<open>Properties of the stored sessions\<close>


lemma join_sp_append: "\<exists>e. join_sp (xs @ ys) = join_sp xs @ e"
proof (induction xs rule: join_sp.induct)
  case 1
  then show ?case by simp
next
  case (2 x)
  then show ?case by (cases ys) auto
next
  case (3 x y zs)
  then obtain e where "join_sp ((y # zs) @ ys) = join_sp (y # zs) @ e" by blast
  then have "join_sp ((x # y # zs) @ ys) = join_sp (x # y # zs) @ e" by simp
  then show ?case by blast
qed

lemma extract_fields_kept: "fields_kept (extractInformation t) (extractInformation (t @ e))"
  unfolding fields_kept_def extract_name extract_color extract_steak toLowerCase_append
  using first_match_extend [of namePatterns t e]
        first_included_extend [of colors "toLowerCase t" "toLowerCase e"]
        first_included_extend [of steakPrefs "toLowerCase t" "toLowerCase e"]
  by blast

lemma fields_kept_refl: "fields_kept i i"
  by (simp add: fields_kept_def)

lemma fields_kept_trans: "fields_kept i j \<Longrightarrow> fields_kept j k \<Longrightarrow> fields_kept i k"
  by (simp add: fields_kept_def)

lemma extract_history_kept:
  "fields_kept (extractInformation (join_sp (map content h)))
               (extractInformation (join_sp (map content (h @ h'))))"
proof -
  obtain e where "join_sp (map content h @ map content h') = join_sp (map content h) @ e"
    using join_sp_append by blast
  then show ?thesis using extract_fields_kept [of "join_sp (map content h)" e] by simp
qed

lemma find_map_keyed:
  assumes "\<And>r. call_sid (f r) = call_sid r"
  shows "find (\<lambda>r. call_sid r = k) (map f rows) = map_option f (find (\<lambda>r. call_sid r = k) rows)"
  using assms by (induction rows) auto

lemma session_of_update:
  "session_of (db \<lparr> call_sessions :=
       map (\<lambda>r. if call_sid r = cs then r \<lparr> conversation_state := h, collected_data := d \<rparr> else r)
         (call_sessions db) \<rparr>) k =
   map_option (\<lambda>r. if call_sid r = cs then r \<lparr> conversation_state := h, collected_data := d \<rparr> else r)
     (session_of db k)"
  unfolding session_of_def by (simp add: find_map_keyed)

lemma session_of_in_set: "session_of db k = Some s \<Longrightarrow> s \<in> set (call_sessions db) \<and> call_sid s = k"
  by (auto simp: session_of_def find_Some_iff)

lemma stored_session:
  "stored_as_extracted db \<Longrightarrow> session_of db k = Some s \<Longrightarrow>
   collected_data s = extractInformation (join_sp (map content (conversation_state s)))"
  by (auto simp: stored_as_extracted_def list_all_iff dest: session_of_in_set)


lemma updateSession_Inr:
  "updateSession env db cs h d = Inr db1 \<Longrightarrow>
   db1 = db \<lparr> call_sessions :=
            map (\<lambda>r. if call_sid r = cs then r \<lparr> conversation_state := h, collected_data := d \<rparr>
                     else r)
              (call_sessions db) \<rparr>"
  by (auto simp: updateSession_def split: if_splits)

lemma update_step:
  assumes inv: "stored_as_extracted db"
      and so: "session_of db cs = Some session"
      and up: "updateSession env db cs (conversation_state session @ h')
                 (extractInformation (join_sp (map content (conversation_state session @ h')))) =
               Inr db1"
  shows "stored_as_extracted db1 \<and>
         (session_of db k = Some s1 \<longrightarrow>
            (\<exists>s2. session_of db1 k = Some s2 \<and>
                  prefix (conversation_state s1) (conversation_state s2) \<and>
                  fields_kept (collected_data s1) (collected_data s2)))"
proof
  let ?h = "conversation_state session @ h'"
  let ?d = "extractInformation (join_sp (map content ?h))"
  let ?f = "\<lambda>r. if call_sid r = cs then r \<lparr> conversation_state := ?h, collected_data := ?d \<rparr> else r"
  from up have db1: "db1 = db \<lparr> call_sessions := map ?f (call_sessions db) \<rparr>"
    by (rule updateSession_Inr)
  from inv show "stored_as_extracted db1"
    unfolding db1 stored_as_extracted_def by (auto simp: list_all_iff)
  show "session_of db k = Some s1 \<longrightarrow>
            (\<exists>s2. session_of db1 k = Some s2 \<and>
                  prefix (conversation_state s1) (conversation_state s2) \<and>
                  fields_kept (collected_data s1) (collected_data s2))"
  proof
    assume s1: "session_of db k = Some s1"
    then have s2: "session_of db1 k = Some (?f s1)"
      unfolding db1 session_of_update by simp
    show "\<exists>s2. session_of db1 k = Some s2 \<and>
                  prefix (conversation_state s1) (conversation_state s2) \<and>
                  fields_kept (collected_data s1) (collected_data s2)"
    proof (cases "call_sid s1 = cs")
      case True
      with s1 have "k = cs" by (auto dest: session_of_in_set)
      with s1 so have eq: "s1 = session" by simp
      from stored_session [OF inv so]
      have "fields_kept (collected_data session) ?d"
        using extract_history_kept [of "conversation_state session" h'] by simp
      with True eq s2 show ?thesis by simp
    next
      case False
      with s2 show ?thesis by (simp add: fields_kept_refl)
    qed
  qed
qed

lemma saveCustomerData_sessions:
  "saveCustomerData env db ph i = Inr db2 \<Longrightarrow> call_sessions db2 = call_sessions db"
  by (auto simp: saveCustomerData_def split: if_splits)

lemma gather_db_cases:
  "db_after (gather env db speechResult callSid from) = db \<or>
   (\<exists>session aiResponse db1.
      session_of db callSid = Some session \<and>
      updateSession env db callSid
        (conversation_state session @
         [\<lparr> role = User, content = speechResult \<rparr>, \<lparr> role = Assistant, content = aiResponse \<rparr>])
        (extractInformation (join_sp (map content
           (conversation_state session @
            [\<lparr> role = User, content = speechResult \<rparr>,
             \<lparr> role = Assistant, content = aiResponse \<rparr>])))) = Inr db1 \<and>
      call_sessions (db_after (gather env db speechResult callSid from)) = call_sessions db1)"
  by (auto simp: gather_def gather_try_def Let_def getSession_session_of
      split: sum.splits option.splits prod.splits if_splits
      dest: saveCustomerData_sessions)


lemma same_sessions_step:
  assumes "call_sessions db' = call_sessions db"
  shows "stored_as_extracted db' = stored_as_extracted db" and "session_of db' k = session_of db k"
  using assms by (simp_all add: stored_as_extracted_def session_of_def)

lemma gather_step:
  assumes inv: "stored_as_extracted db"
  shows "stored_as_extracted (db_after (gather env db speechResult callSid from)) \<and>
         (session_of db k = Some s1 \<longrightarrow>
            (\<exists>s2. session_of (db_after (gather env db speechResult callSid from)) k = Some s2 \<and>
                  prefix (conversation_state s1) (conversation_state s2) \<and>
                  fields_kept (collected_data s1) (collected_data s2)))"
proof -
  let ?db' = "db_after (gather env db speechResult callSid from)"
  from gather_db_cases [of env db speechResult callSid "from"]
  consider "?db' = db"
    | session aiResponse db1 where "session_of db callSid = Some session"
      "updateSession env db callSid
        (conversation_state session @
         [\<lparr> role = User, content = speechResult \<rparr>, \<lparr> role = Assistant, content = aiResponse \<rparr>])
        (extractInformation (join_sp (map content
           (conversation_state session @
            [\<lparr> role = User, content = speechResult \<rparr>,
             \<lparr> role = Assistant, content = aiResponse \<rparr>])))) = Inr db1"
      "call_sessions ?db' = call_sessions db1"
    by blast
  then show ?thesis
  proof cases
    case 1
    with inv show ?thesis by (auto simp: fields_kept_refl)
  next
    case (2 session aiResponse db1)
    from update_step [OF inv 2(1) 2(2), of k s1] same_sessions_step [OF 2(3)]
    show ?thesis by simp
  qed
qed

lemma goc_step_cases:
  "fst (goc_step env db p) = db \<or>
   (\<exists>cs ph. call_sessions (fst (goc_step env db p)) =
      call_sessions db @
      [\<lparr> s_id = call_sessions_seq db + 1, call_sid = cs, phone_number = ph,
         conversation_state = [],
         collected_data = \<lparr> name = None, favoriteColor = None, steakPreference = None \<rparr> \<rparr>])"
  by (cases p) (auto simp: Let_def split: option.splits)

lemma extract_empty:
  "extractInformation [] = \<lparr> name = None, favoriteColor = None, steakPreference = None \<rparr>"
  by code_simp

lemma find_append_Some: "find P xs = Some x \<Longrightarrow> find P (xs @ ys) = Some x"
  by (induction xs) (auto split: if_splits)

lemma goc_step_step:
  assumes inv: "stored_as_extracted db"
  shows "stored_as_extracted (fst (goc_step env db p)) \<and>
         (session_of db k = Some s1 \<longrightarrow> session_of (fst (goc_step env db p)) k = Some s1)"
proof -
  from goc_step_cases [of env db p]
  consider "fst (goc_step env db p) = db"
    | cs ph where "call_sessions (fst (goc_step env db p)) =
      call_sessions db @
      [\<lparr> s_id = call_sessions_seq db + 1, call_sid = cs, phone_number = ph,
         conversation_state = [],
         collected_data = \<lparr> name = None, favoriteColor = None, steakPreference = None \<rparr> \<rparr>]"
    by blast
  then show ?thesis
  proof cases
    case 1
    with inv show ?thesis by simp
  next
    case (2 cs ph)
    with inv show ?thesis
      by (auto simp: stored_as_extracted_def session_of_def extract_empty find_append_Some)
  qed
qed

lemma voice_step:
  assumes inv: "stored_as_extracted db"
  shows "stored_as_extracted (fst (voice env db callSid from)) \<and>
         (session_of db k = Some s1 \<longrightarrow> session_of (fst (voice env db callSid from)) k = Some s1)"
proof -
  let ?s1 = "goc_step env db (Select callSid from)"
  have v: "fst (voice env db callSid from) = fst (goc_step env (fst ?s1) (snd ?s1))"
    by (simp add: voice_def getOrCreateSession_def split: prod.splits goc.splits)
  from goc_step_step [OF inv, of env "Select callSid from" k s1]
  have 1: "stored_as_extracted (fst ?s1)"
    and 2: "session_of db k = Some s1 \<longrightarrow> session_of (fst ?s1) k = Some s1" by blast+
  from goc_step_step [OF 1, of env "snd ?s1" k s1] 2 show ?thesis
    unfolding v by blast
qed

lemma serve_step:
  "stored_as_extracted db \<Longrightarrow>
   stored_as_extracted (serve db rs) \<and>
   (session_of db k = Some s1 \<longrightarrow>
      (\<exists>s2. session_of (serve db rs) k = Some s2 \<and>
            prefix (conversation_state s1) (conversation_state s2) \<and>
            fields_kept (collected_data s1) (collected_data s2)))"
proof (induction rs arbitrary: db s1)
  case Nil
  then show ?case by (simp add: fields_kept_refl)
next
  case (Cons r rs)
  show ?case
  proof (cases r)
    case (Voice env callSid ph)
    from voice_step [OF Cons.prems, of env callSid ph k s1]
    have inv': "stored_as_extracted (fst (voice env db callSid ph))"
      and keep: "session_of db k = Some s1 \<longrightarrow>
                 session_of (fst (voice env db callSid ph)) k = Some s1" by blast+
    from Cons.IH [OF inv', of s1] keep Voice show ?thesis by simp
  next
    case (GatherSpeech env speechResult callSid ph)
    let ?db' = "db_after (gather env db speechResult callSid ph)"
    from gather_step [OF Cons.prems, of env speechResult callSid ph k s1]
    have inv': "stored_as_extracted ?db'"
      and keep: "session_of db k = Some s1 \<longrightarrow>
            (\<exists>s2. session_of ?db' k = Some s2 \<and>
                  prefix (conversation_state s1) (conversation_state s2) \<and>
                  fields_kept (collected_data s1) (collected_data s2))" by blast+
    show ?thesis
    proof (intro conjI impI)
      from Cons.IH [OF inv'] GatherSpeech show "stored_as_extracted (serve db (r # rs))"
        by simp
    next
      assume "session_of db k = Some s1"
      with keep obtain s2 where s2: "session_of ?db' k = Some s2"
        "prefix (conversation_state s1) (conversation_state s2)"
        "fields_kept (collected_data s1) (collected_data s2)" by blast
      from Cons.IH [OF inv', of s2] s2(1) obtain s3 where s3:
        "session_of (serve ?db' rs) k = Some s3"
        "prefix (conversation_state s2) (conversation_state s3)"
        "fields_kept (collected_data s2) (collected_data s3)" by blast
      from s2 s3 have "prefix (conversation_state s1) (conversation_state s3)"
        and "fields_kept (collected_data s1) (collected_data s3)"
        by (auto intro: fields_kept_trans)
      with s3(1) GatherSpeech
      show "\<exists>s2. session_of (serve db (r # rs)) k = Some s2 \<and>
            prefix (conversation_state s1) (conversation_state s2) \<and>
            fields_kept (collected_data s1) (collected_data s2)" by auto
    qed
  qed
qed

lemma serve_append: "serve db (xs @ ys) = serve (serve db xs) ys"
  by (induction db xs rule: serve.induct) auto

lemma stored_empty: "stored_as_extracted empty_db"
  by (simp add: stored_as_extracted_def empty_db_def)

text \<open>
  Claim C7. Extending a transcript never makes \<^verbatim>\<open>extractInformation\<close> drop a field it
  returned. For the server: starting from the empty database, whatever requests were
  handled before and whatever requests follow (other calls, turns that fail, turns
  whose utterance mentions no slot), the session stored for a call keeps its history as
  a prefix and every field that was set in its collected data stays set.
\<close>

theorem partial_record_monotone:
  "(name (extractInformation transcript) \<noteq> None \<longrightarrow>
      name (extractInformation (transcript @ added)) \<noteq> None) \<and>
   (favoriteColor (extractInformation transcript) \<noteq> None \<longrightarrow>
      favoriteColor (extractInformation (transcript @ added)) \<noteq> None) \<and>
   (steakPreference (extractInformation transcript) \<noteq> None \<longrightarrow>
      steakPreference (extractInformation (transcript @ added)) \<noteq> None) \<and>
   (session_of (serve empty_db earlier) callSid = Some s1 \<longrightarrow>
      (\<exists>s2. session_of (serve empty_db (earlier @ later)) callSid = Some s2 \<and>
            prefix (conversation_state s1) (conversation_state s2) \<and>
            (name (collected_data s1) \<noteq> None \<longrightarrow> name (collected_data s2) \<noteq> None) \<and>
            (favoriteColor (collected_data s1) \<noteq> None \<longrightarrow>
               favoriteColor (collected_data s2) \<noteq> None) \<and>
            (steakPreference (collected_data s1) \<noteq> None \<longrightarrow>
               steakPreference (collected_data s2) \<noteq> None)))"
proof -
  have inv: "stored_as_extracted (serve empty_db earlier)"
    using serve_step [OF stored_empty] by blast
  from serve_step [OF inv, of later callSid s1] extract_fields_kept [of transcript added]
  show ?thesis
    unfolding serve_append fields_kept_def by blast
qed


theorem partial_record_monotone_witness:
  "name (extractInformation ''my name is Sam, I like blue, medium well'') \<noteq> None \<and>
   favoriteColor (extractInformation ''my name is Sam, I like blue, medium well'') \<noteq> None \<and>
   steakPreference (extractInformation ''my name is Sam, I like blue, medium well'') \<noteq> None \<and>
   name (extractInformation (''my name is Sam, I like blue, medium well'' @ '', thanks'')) \<noteq> None \<and>
   favoriteColor (extractInformation (''my name is Sam, I like blue, medium well'' @ '', thanks'')) \<noteq> None \<and>
   steakPreference (extractInformation (''my name is Sam, I like blue, medium well'' @ '', thanks'')) \<noteq> None \<and>
   map_option collected_data (session_of (serve empty_db example_call) ''CA1'') =
     Some \<lparr> name = Some ''Sam'', favoriteColor = Some ''blue'',
            steakPreference = Some ''medium well'' \<rparr> \<and>
   (\<exists>s2. session_of (serve empty_db
             (example_call @ [GatherSpeech env_openai_down ''Hello?'' ''CA1'' ''+15550199'',
                              GatherSpeech env_ok ''Thanks, bye'' ''CA1'' ''+15550199'']))
             ''CA1'' = Some s2 \<and>
         name (collected_data s2) \<noteq> None \<and> favoriteColor (collected_data s2) \<noteq> None \<and>
         steakPreference (collected_data s2) \<noteq> None)"
proof -
  let ?t = "''my name is Sam, I like blue, medium well''"
  have a: "extractInformation ?t =
             \<lparr> name = Some ''Sam'', favoriteColor = Some ''blue'',
               steakPreference = Some ''medium well'' \<rparr>"
    by code_simp
  have d: "map_option collected_data (session_of (serve empty_db example_call) ''CA1'') =
     Some \<lparr> name = Some ''Sam'', favoriteColor = Some ''blue'',
            steakPreference = Some ''medium well'' \<rparr>"
    by code_simp
  then obtain s1 where s1: "session_of (serve empty_db example_call) ''CA1'' = Some s1"
    and c1: "collected_data s1 = \<lparr> name = Some ''Sam'', favoriteColor = Some ''blue'',
            steakPreference = Some ''medium well'' \<rparr>"
    by auto
  from a s1 c1
    partial_record_monotone [of ?t "'', thanks''" example_call "''CA1''" s1
      "[GatherSpeech env_openai_down ''Hello?'' ''CA1'' ''+15550199'',
        GatherSpeech env_ok ''Thanks, bye'' ''CA1'' ''+15550199'']"]
  have "name (extractInformation (?t @ '', thanks'')) \<noteq> None \<and>
        favoriteColor (extractInformation (?t @ '', thanks'')) \<noteq> None \<and>
        steakPreference (extractInformation (?t @ '', thanks'')) \<noteq> None \<and>
        (\<exists>s2. session_of (serve empty_db
             (example_call @ [GatherSpeech env_openai_down ''Hello?'' ''CA1'' ''+15550199'',
                              GatherSpeech env_ok ''Thanks, bye'' ''CA1'' ''+15550199'']))
             ''CA1'' = Some s2 \<and>
         name (collected_data s2) \<noteq> None \<and> favoriteColor (collected_data s2) \<noteq> None \<and>
         steakPreference (collected_data s2) \<noteq> None)"
    by auto
  with a d show ?thesis by simp
qed

lemma find_append_None: "find P xs = None \<Longrightarrow> find P (xs @ ys) = find P ys"
  by (induction xs) (auto split: if_splits)

lemma no_session_filter:
  "session_of db callSid = None \<Longrightarrow> filter (\<lambda>r. call_sid r = callSid) (call_sessions db) = []"
  by (auto simp: session_of_None_iff filter_empty_conv)

text \<open>
  Claim C8, as stated, fails: the lookup and the insert of \<^verbatim>\<open>getOrCreateSession\<close> are
  two statements and \<^verbatim>\<open>call_sid\<close> is not unique, so when both invocations look up the
  call before either inserts, two rows are stored for it.
\<close>

theorem getOrCreate_interleaved_counterexample:
  "session_of empty_db ''CA1'' = None \<and>
   length (filter (\<lambda>r. call_sid r = ''CA1'')
     (call_sessions (fst (goc_run env_ok empty_db (Select ''CA1'' ''+15550199'')
                            (Select ''CA1'' ''+15550199'') [False, True, False, True])))) = 2"
  by code_simp

lemma goc_insert:
  "\<forall>st. \<not> sqlite_err env st \<Longrightarrow>
   goc_step env d (Insert cs ph) =
     (with_session d (new_session d cs ph), Resolved (new_session d cs ph))"
  by (simp add: Let_def new_session_def with_session_def)

lemma goc_select_none:
  "\<forall>st. \<not> sqlite_err env st \<Longrightarrow> session_of d cs = None \<Longrightarrow>
   goc_step env d (Select cs ph) = (d, Insert cs ph)"
  by (simp add: session_of_def)

lemma goc_select_some:
  "\<forall>st. \<not> sqlite_err env st \<Longrightarrow> session_of d cs = Some row \<Longrightarrow>
   goc_step env d (Select cs ph) = (d, Resolved row)"
  by (simp add: session_of_def)

lemma goc_run_resolved:
  "goc_run env d (Resolved r1) (Resolved r2) sched = (d, Resolved r1, Resolved r2)"
proof (induction sched)
  case Nil
  then show ?case by simp
next
  case (Cons x sched)
  then show ?case by (cases x) simp_all
qed

lemma goc_run_second_inserts:
  assumes ok: "\<forall>st. \<not> sqlite_err env st"
  shows "True \<in> set sched \<Longrightarrow>
         goc_run env d (Resolved r1) (Insert cs ph) sched =
           (with_session d (new_session d cs ph), Resolved r1, Resolved (new_session d cs ph))"
proof (induction sched)
  case Nil
  then show ?case by simp
next
  case (Cons x sched)
  show ?case
  proof (cases x)
    case True
    then show ?thesis
      by (simp only: goc_run.simps goc_insert [OF ok] Let_def prod.case goc_run_resolved)
  next
    case False
    with Cons show ?thesis by simp
  qed
qed

lemma goc_run_first_inserts:
  assumes ok: "\<forall>st. \<not> sqlite_err env st"
  shows "False \<in> set sched \<Longrightarrow>
         goc_run env d (Insert cs ph) (Resolved r2) sched =
           (with_session d (new_session d cs ph), Resolved (new_session d cs ph), Resolved r2)"
proof (induction sched)
  case Nil
  then show ?case by simp
next
  case (Cons x sched)
  show ?case
  proof (cases x)
    case False
    then show ?thesis
      by (simp only: goc_run.simps goc_insert [OF ok] Let_def prod.case goc_run_resolved)
  next
    case True
    with Cons show ?thesis by simp
  qed
qed

lemma goc_run_second_selects:
  assumes ok: "\<forall>st. \<not> sqlite_err env st" and found: "session_of d cs = Some row"
  shows "True \<in> set sched \<Longrightarrow>
         goc_run env d (Resolved r1) (Select cs ph) sched = (d, Resolved r1, Resolved row)"
proof (induction sched)
  case Nil
  then show ?case by simp
next
  case (Cons x sched)
  show ?case
  proof (cases x)
    case True
    then show ?thesis
      by (simp only: goc_run.simps goc_select_some [OF ok found] Let_def prod.case
            goc_run_resolved)
  next
    case False
    with Cons show ?thesis by simp
  qed
qed

lemma goc_run_first_selects:
  assumes ok: "\<forall>st. \<not> sqlite_err env st" and found: "session_of d cs = Some row"
  shows "False \<in> set sched \<Longrightarrow>
         goc_run env d (Select cs ph) (Resolved r2) sched = (d, Resolved row, Resolved r2)"
proof (induction sched)
  case Nil
  then show ?case by simp
next
  case (Cons x sched)
  show ?case
  proof (cases x)
    case False
    then show ?thesis
      by (simp only: goc_run.simps goc_select_some [OF ok found] Let_def prod.case
            goc_run_resolved)
  next
    case True
    with Cons show ?thesis by simp
  qed
qed

lemma goc_run_both_insert:
  assumes ok: "\<forall>st. \<not> sqlite_err env st"
      and "False \<in> set sched" and "True \<in> set sched"
  shows "goc_run env d (Insert cs ph1) (Insert cs ph2) sched =
           (if hd sched
            then (with_session (with_session d (new_session d cs ph2))
                    (new_session (with_session d (new_session d cs ph2)) cs ph1),
                  Resolved (new_session (with_session d (new_session d cs ph2)) cs ph1),
                  Resolved (new_session d cs ph2))
            else (with_session (with_session d (new_session d cs ph1))
                    (new_session (with_session d (new_session d cs ph1)) cs ph2),
                  Resolved (new_session d cs ph1),
                  Resolved (new_session (with_session d (new_session d cs ph1)) cs ph2)))"
proof (cases sched)
  case Nil
  with assms(2) show ?thesis by simp
next
  case (Cons x rest)
  show ?thesis
  proof (cases x)
    case True
    with Cons assms(2) have "False \<in> set rest" by simp
    from goc_run_first_inserts [OF ok this] Cons True show ?thesis
      by (simp only: goc_run.simps goc_insert [OF ok] Let_def prod.case list.sel if_True)
  next
    case False
    with Cons assms(3) have "True \<in> set rest" by simp
    from goc_run_second_inserts [OF ok this] Cons False show ?thesis
      by (simp only: goc_run.simps goc_insert [OF ok] Let_def prod.case list.sel if_False)
  qed
qed

lemma session_of_with_session:
  "session_of d cs = None \<Longrightarrow> call_sid row = cs \<Longrightarrow> session_of (with_session d row) cs = Some row"
  by (simp add: session_of_def with_session_def find_append_None)

lemma filter_with_session:
  "call_sid row = cs \<Longrightarrow>
   filter (\<lambda>r. call_sid r = cs) (call_sessions (with_session d row)) =
   filter (\<lambda>r. call_sid r = cs) (call_sessions d) @ [row]"
  by (simp add: with_session_def)

lemma new_session_sel [simp]:
  "call_sid (new_session d cs ph) = cs" "s_id (new_session d cs ph) = call_sessions_seq d + 1"
  by (simp_all add: new_session_def)

lemma with_session_seq [simp]:
  "call_sessions_seq (with_session d row) = call_sessions_seq d + 1"
  by (simp add: with_session_def)

text \<open>
  Claim C8, amended. With working storage and no session stored for the call yet, for
  every schedule of the two invocations that lets both finish. When one invocation
  runs its lookup and its insert before the other starts (in either order), exactly one
  row is stored for the call and both resolve with that row. When both lookups run
  before either insert (in either order of the lookups and of the inserts), two rows
  are stored for the call, in the order of the inserts, and each invocation resolves
  with its own row, both carrying the call id.
\<close>

theorem getOrCreate_twice:
  assumes ok: "\<forall>st. \<not> sqlite_err env st" and none: "session_of db callSid = None"
  shows "(\<exists>row db1.
            getOrCreateSession env db callSid phone1 = (db1, Resolved row) \<and>
            getOrCreateSession env db1 callSid phone2 = (db1, Resolved row) \<and>
            (\<forall>rest. True \<in> set rest \<longrightarrow>
               goc_run env db (Select callSid phone1) (Select callSid phone2)
                 ([False, False] @ rest) = (db1, Resolved row, Resolved row)) \<and>
            call_sid row = callSid \<and>
            filter (\<lambda>r. call_sid r = callSid) (call_sessions db1) = [row]) \<and>
         (\<exists>row db1.
            (\<forall>rest. False \<in> set rest \<longrightarrow>
               goc_run env db (Select callSid phone1) (Select callSid phone2)
                 ([True, True] @ rest) = (db1, Resolved row, Resolved row)) \<and>
            call_sid row = callSid \<and>
            filter (\<lambda>r. call_sid r = callSid) (call_sessions db1) = [row]) \<and>
         (\<forall>a rest. False \<in> set rest \<and> True \<in> set rest \<longrightarrow>
            (\<exists>row1 row2 db2.
               goc_run env db (Select callSid phone1) (Select callSid phone2)
                 ([a, \<not> a] @ rest) = (db2, Resolved row1, Resolved row2) \<and>
               call_sid row1 = callSid \<and> call_sid row2 = callSid \<and> s_id row1 \<noteq> s_id row2 \<and>
               filter (\<lambda>r. call_sid r = callSid) (call_sessions db2) =
                 (if hd rest then [row2, row1] else [row1, row2])))"
proof (intro conjI)
  let ?P = "\<lambda>r. call_sid r = callSid"
  let ?r1 = "new_session db callSid phone1"
  let ?d1 = "with_session db ?r1"
  let ?r2 = "new_session db callSid phone2"
  let ?d2 = "with_session db ?r2"
  have f0: "filter ?P (call_sessions db) = []"
    using none by (rule no_session_filter)
  note sel = goc_select_none [OF ok none]
  note ins = goc_insert [OF ok]
  have found1: "session_of ?d1 callSid = Some ?r1"
    using none by (simp add: session_of_with_session)
  have found2: "session_of ?d2 callSid = Some ?r2"
    using none by (simp add: session_of_with_session)
  have a: "getOrCreateSession env db callSid phone1 = (?d1, Resolved ?r1)"
    by (simp only: getOrCreateSession_def sel ins Let_def prod.case)
  have b: "getOrCreateSession env ?d1 callSid phone2 = (?d1, Resolved ?r1)"
    by (simp only: getOrCreateSession_def goc_select_some [OF ok found1] Let_def prod.case
          goc_step.simps(3))
  have c: "\<forall>rest. True \<in> set rest \<longrightarrow>
               goc_run env db (Select callSid phone1) (Select callSid phone2)
                 ([False, False] @ rest) = (?d1, Resolved ?r1, Resolved ?r1)"
  proof (intro allI impI)
    fix rest :: "bool list"
    assume "True \<in> set rest"
    from goc_run_second_selects [OF ok found1 this]
    show "goc_run env db (Select callSid phone1) (Select callSid phone2)
            ([False, False] @ rest) = (?d1, Resolved ?r1, Resolved ?r1)"
      by (simp only: append.simps goc_run.simps sel ins Let_def prod.case)
  qed
  have e: "filter ?P (call_sessions ?d1) = [?r1]"
    by (simp add: filter_with_session f0)
  from a b c e show "\<exists>row db1.
            getOrCreateSession env db callSid phone1 = (db1, Resolved row) \<and>
            getOrCreateSession env db1 callSid phone2 = (db1, Resolved row) \<and>
            (\<forall>rest. True \<in> set rest \<longrightarrow>
               goc_run env db (Select callSid phone1) (Select callSid phone2)
                 ([False, False] @ rest) = (db1, Resolved row, Resolved row)) \<and>
            call_sid row = callSid \<and>
            filter (\<lambda>r. call_sid r = callSid) (call_sessions db1) = [row]"
    by (intro exI [of _ ?r1] exI [of _ ?d1]) simp
  have c': "\<forall>rest. False \<in> set rest \<longrightarrow>
               goc_run env db (Select callSid phone1) (Select callSid phone2)
                 ([True, True] @ rest) = (?d2, Resolved ?r2, Resolved ?r2)"
  proof (intro allI impI)
    fix rest :: "bool list"
    assume "False \<in> set rest"
    from goc_run_first_selects [OF ok found2 this]
    show "goc_run env db (Select callSid phone1) (Select callSid phone2)
            ([True, True] @ rest) = (?d2, Resolved ?r2, Resolved ?r2)"
      by (simp only: append.simps goc_run.simps sel ins Let_def prod.case)
  qed
  have e': "filter ?P (call_sessions ?d2) = [?r2]"
    by (simp add: filter_with_session f0)
  from c' e' show "\<exists>row db1.
            (\<forall>rest. False \<in> set rest \<longrightarrow>
               goc_run env db (Select callSid phone1) (Select callSid phone2)
                 ([True, True] @ rest) = (db1, Resolved row, Resolved row)) \<and>
            call_sid row = callSid \<and>
            filter (\<lambda>r. call_sid r = callSid) (call_sessions db1) = [row]"
    by (intro exI [of _ ?r2] exI [of _ ?d2]) simp
  show "\<forall>a rest. False \<in> set rest \<and> True \<in> set rest \<longrightarrow>
            (\<exists>row1 row2 db2.
               goc_run env db (Select callSid phone1) (Select callSid phone2)
                 ([a, \<not> a] @ rest) = (db2, Resolved row1, Resolved row2) \<and>
               call_sid row1 = callSid \<and> call_sid row2 = callSid \<and> s_id row1 \<noteq> s_id row2 \<and>
               filter (\<lambda>r. call_sid r = callSid) (call_sessions db2) =
                 (if hd rest then [row2, row1] else [row1, row2]))"
  proof (intro allI impI)
    fix a :: bool and rest :: "bool list"
    assume both: "False \<in> set rest \<and> True \<in> set rest"
    have start: "goc_run env db (Select callSid phone1) (Select callSid phone2)
                   ([a, \<not> a] @ rest) =
                 goc_run env db (Insert callSid phone1) (Insert callSid phone2) rest"
      by (cases a) (simp_all only: append.simps goc_run.simps sel Let_def prod.case
            not_True_eq_False not_False_eq_True)
    note run = goc_run_both_insert [OF ok conjunct1 [OF both] conjunct2 [OF both],
                 of db callSid phone1 phone2]
    show "\<exists>row1 row2 db2.
               goc_run env db (Select callSid phone1) (Select callSid phone2)
                 ([a, \<not> a] @ rest) = (db2, Resolved row1, Resolved row2) \<and>
               call_sid row1 = callSid \<and> call_sid row2 = callSid \<and> s_id row1 \<noteq> s_id row2 \<and>
               filter (\<lambda>r. call_sid r = callSid) (call_sessions db2) =
                 (if hd rest then [row2, row1] else [row1, row2])"
    proof (cases "hd rest")
      case True
      let ?r1' = "new_session ?d2 callSid phone1"
      from run True have "goc_run env db (Select callSid phone1) (Select callSid phone2)
                 ([a, \<not> a] @ rest) = (with_session ?d2 ?r1', Resolved ?r1', Resolved ?r2)"
        unfolding start by simp
      moreover have "filter ?P (call_sessions (with_session ?d2 ?r1')) = [?r2, ?r1']"
        by (simp add: filter_with_session f0)
      ultimately show ?thesis using True
        by (intro exI [of _ ?r1'] exI [of _ ?r2] exI [of _ "with_session ?d2 ?r1'"]) simp
    next
      case False
      let ?r2' = "new_session ?d1 callSid phone2"
      from run False have "goc_run env db (Select callSid phone1) (Select callSid phone2)
                 ([a, \<not> a] @ rest) = (with_session ?d1 ?r2', Resolved ?r1, Resolved ?r2')"
        unfolding start by simp
      moreover have "filter ?P (call_sessions (with_session ?d1 ?r2')) = [?r1, ?r2']"
        by (simp add: filter_with_session f0)
      ultimately show ?thesis using False
        by (intro exI [of _ ?r1] exI [of _ ?r2'] exI [of _ "with_session ?d1 ?r2'"]) simp
    qed
  qed
qed

theorem getOrCreate_twice_witness:
  "(\<forall>st. \<not> sqlite_err env_ok st) \<and> session_of empty_db ''CA1'' = None \<and>
   (\<exists>row db1.
      getOrCreateSession env_ok empty_db ''CA1'' ''+15550199'' = (db1, Resolved row) \<and>
      getOrCreateSession env_ok db1 ''CA1'' ''+15550199'' = (db1, Resolved row) \<and>
      goc_run env_ok empty_db (Select ''CA1'' ''+15550199'') (Select ''CA1'' ''+15550199'')
        ([False, False] @ [True]) = (db1, Resolved row, Resolved row) \<and>
      call_sid row = ''CA1'' \<and>
      filter (\<lambda>r. call_sid r = ''CA1'') (call_sessions db1) = [row]) \<and>
   (\<exists>row db1.
      goc_run env_ok empty_db (Select ''CA1'' ''+15550199'') (Select ''CA1'' ''+15550199'')
        ([True, True] @ [False]) = (db1, Resolved row, Resolved row) \<and>
      filter (\<lambda>r. call_sid r = ''CA1'') (call_sessions db1) = [row]) \<and>
   (\<exists>row1 row2 db2.
      goc_run env_ok empty_db (Select ''CA1'' ''+15550199'') (Select ''CA1'' ''+15550199'')
        ([False, \<not> False] @ [True, False]) = (db2, Resolved row1, Resolved row2) \<and>
      s_id row1 \<noteq> s_id row2 \<and>
      filter (\<lambda>r. call_sid r = ''CA1'') (call_sessions db2) = [row2, row1])"
proof -
  have a: "\<forall>st. \<not> sqlite_err env_ok st" by (simp add: env_ok_def)
  have b: "session_of empty_db ''CA1'' = None" by (simp add: session_of_def empty_db_def)
  note t = getOrCreate_twice [OF a b, of "''+15550199''" "''+15550199''"]
  from t obtain row db1 where
    r1: "getOrCreateSession env_ok empty_db ''CA1'' ''+15550199'' = (db1, Resolved row)"
        "getOrCreateSession env_ok db1 ''CA1'' ''+15550199'' = (db1, Resolved row)"
        "call_sid row = ''CA1''"
        "filter (\<lambda>r. call_sid r = ''CA1'') (call_sessions db1) = [row]" and
    r2: "\<forall>rest. True \<in> set rest \<longrightarrow>
           goc_run env_ok empty_db (Select ''CA1'' ''+15550199'') (Select ''CA1'' ''+15550199'')
             ([False, False] @ rest) = (db1, Resolved row, Resolved row)"
    by blast
  have "True \<in> set [True]" by simp
  with r2 have "goc_run env_ok empty_db (Select ''CA1'' ''+15550199'') (Select ''CA1'' ''+15550199'')
        ([False, False] @ [True]) = (db1, Resolved row, Resolved row)"
    by blast
  with r1 have 1: "\<exists>row db1.
      getOrCreateSession env_ok empty_db ''CA1'' ''+15550199'' = (db1, Resolved row) \<and>
      getOrCreateSession env_ok db1 ''CA1'' ''+15550199'' = (db1, Resolved row) \<and>
      goc_run env_ok empty_db (Select ''CA1'' ''+15550199'') (Select ''CA1'' ''+15550199'')
        ([False, False] @ [True]) = (db1, Resolved row, Resolved row) \<and>
      call_sid row = ''CA1'' \<and>
      filter (\<lambda>r. call_sid r = ''CA1'') (call_sessions db1) = [row]"
    by blast
  from t obtain row' db1' where
    s1: "filter (\<lambda>r. call_sid r = ''CA1'') (call_sessions db1') = [row']" and
    s2: "\<forall>rest. False \<in> set rest \<longrightarrow>
           goc_run env_ok empty_db (Select ''CA1'' ''+15550199'') (Select ''CA1'' ''+15550199'')
             ([True, True] @ rest) = (db1', Resolved row', Resolved row')"
    by blast
  have "False \<in> set [False]" by simp
  with s2 have "goc_run env_ok empty_db (Select ''CA1'' ''+15550199'') (Select ''CA1'' ''+15550199'')
        ([True, True] @ [False]) = (db1', Resolved row', Resolved row')"
    by blast
  with s1 have 2: "\<exists>row db1.
      goc_run env_ok empty_db (Select ''CA1'' ''+15550199'') (Select ''CA1'' ''+15550199'')
        ([True, True] @ [False]) = (db1, Resolved row, Resolved row) \<and>
      filter (\<lambda>r. call_sid r = ''CA1'') (call_sessions db1) = [row]"
    by blast
  from t have t3: "\<forall>a rest. False \<in> set rest \<and> True \<in> set rest \<longrightarrow>
      (\<exists>row1 row2 db2.
      goc_run env_ok empty_db (Select ''CA1'' ''+15550199'') (Select ''CA1'' ''+15550199'')
        ([a, \<not> a] @ rest) = (db2, Resolved row1, Resolved row2) \<and>
      call_sid row1 = ''CA1'' \<and> call_sid row2 = ''CA1'' \<and> s_id row1 \<noteq> s_id row2 \<and>
      filter (\<lambda>r. call_sid r = ''CA1'') (call_sessions db2) =
        (if hd rest then [row2, row1] else [row1, row2]))"
    by blast
  have m: "False \<in> set [True, False] \<and> True \<in> set [True, False]" by simp
  have h: "hd [True, False]" by simp
  from t3 [rule_format, OF m, of False] obtain row1 row2 db2 where
    u1: "goc_run env_ok empty_db (Select ''CA1'' ''+15550199'') (Select ''CA1'' ''+15550199'')
        ([False, \<not> False] @ [True, False]) = (db2, Resolved row1, Resolved row2)" and
    u2: "s_id row1 \<noteq> s_id row2" and
    u3: "filter (\<lambda>r. call_sid r = ''CA1'') (call_sessions db2) =
        (if hd [True, False] then [row2, row1] else [row1, row2])"
    by blast
  from u3 h have "filter (\<lambda>r. call_sid r = ''CA1'') (call_sessions db2) = [row2, row1]"
    by (simp only: if_True)
  with u1 u2 have 3: "\<exists>row1 row2 db2.
      goc_run env_ok empty_db (Select ''CA1'' ''+15550199'') (Select ''CA1'' ''+15550199'')
        ([False, \<not> False] @ [True, False]) = (db2, Resolved row1, Resolved row2) \<and>
      s_id row1 \<noteq> s_id row2 \<and>
      filter (\<lambda>r. call_sid r = ''CA1'') (call_sessions db2) = [row2, row1]"
    by blast
  from a b 1 2 3 show ?thesis by blast
qed


end
